theory Spec2Isabelle
  imports Complex_Main "HOL-Library.Word"
begin

section \<open>Strings, errors and JSON values\<close>

text \<open>
  A JavaScript string is a sequence of UTF-16 code units; \<open>length\<close>, \<open>includes\<close>,
  \<open>startsWith\<close>, \<open>substring\<close>, \<open>split\<close> and a regular expression without the \<open>u\<close> flag
  all work on code units. String literals of the source that are ASCII are written with
  \<open>ascii\<close>; the Chinese literals are written as their code units.
\<close>

type_synonym code_unit = "16 word"
type_synonym jsstring = "code_unit list"

definition ascii :: "string \<Rightarrow> jsstring" where
  "ascii s = map (\<lambda>c. of_nat (of_char c)) s"

text \<open>
  \<open>isWhiteSpace\<close> is the set that \<open>String.prototype.trim\<close> strips and that \<open>\s\<close> matches:
  the WhiteSpace and LineTerminator code points of ECMAScript.
\<close>

definition isWhiteSpace :: "code_unit \<Rightarrow> bool" where
  "isWhiteSpace c =
     (c \<in> {0x09, 0x0A, 0x0B, 0x0C, 0x0D, 0x20, 0xA0, 0x1680, 0x2028, 0x2029,
            0x202F, 0x205F, 0x3000, 0xFEFF}
      \<or> (0x2000 \<le> c \<and> c \<le> 0x200A))"

definition isLineTerminator :: "code_unit \<Rightarrow> bool" where
  "isLineTerminator c = (c \<in> {0x0A, 0x0D, 0x2028, 0x2029})"

definition trim :: "jsstring \<Rightarrow> jsstring" where
  "trim s = rev (dropWhile isWhiteSpace (rev (dropWhile isWhiteSpace s)))"

definition startsWith :: "jsstring \<Rightarrow> jsstring \<Rightarrow> bool" where
  "startsWith s p = (take (length p) s = p)"

text \<open>\<open>includes_str s t\<close> is \<open>s.includes(t)\<close>: \<open>t\<close> occurs in \<open>s\<close> as a contiguous run.\<close>

fun includes_str :: "jsstring \<Rightarrow> jsstring \<Rightarrow> bool" where
  "includes_str [] t = (t = [])"
| "includes_str (c # s) t = (startsWith (c # s) t \<or> includes_str s t)"

text \<open>
  \<open>remove_first p s\<close> is \<open>s.replace(p, '')\<close> for a string pattern \<open>p\<close>: the first
  occurrence of \<open>p\<close> is removed, and \<open>s\<close> is returned unchanged when there is none.
\<close>

fun remove_first :: "jsstring \<Rightarrow> jsstring \<Rightarrow> jsstring" where
  "remove_first p [] = []"
| "remove_first p (c # s) =
     (if startsWith (c # s) p then drop (length p) (c # s) else c # remove_first p s)"

text \<open>
  \<open>String.prototype.toLowerCase\<close> follows the Unicode case tables, which are not part of
  the program. Every function that lowercases takes it as the parameter \<open>toLowerCase\<close>,
  so each theorem holds for whatever the engine's tables are. \<open>toLowerCase_ascii\<close> is what
  the built-in does on strings whose only cased characters are the letters A to Z; it is
  used where a concrete input is evaluated.
\<close>

definition toLowerCase_ascii :: "jsstring \<Rightarrow> jsstring" where
  "toLowerCase_ascii s = map (\<lambda>c. if 0x41 \<le> c \<and> c \<le> 0x5A then c + 0x20 else c) s"

text \<open>
  Exceptions are values. \<open>TypeError\<close> is what a method call on a value without that
  method raises, and what \<open>JSON.stringify\<close> raises on a circular structure;
  \<open>SyntaxError\<close> is what \<open>JSON.parse\<close> raises. Both are error objects that the engine
  makes. \<open>Rejection v\<close> is a value of the host, numbered \<open>v\<close>, that a call of the
  key-value store rejects with or that a \<open>toJSON\<close> method of such a value raises.
\<close>

datatype error = TypeError | SyntaxError | Rejection nat

definition bindE :: "error + 'a \<Rightarrow> ('a \<Rightarrow> error + 'b) \<Rightarrow> error + 'b" where
  "bindE m f = (case m of Inl e \<Rightarrow> Inl e | Inr x \<Rightarrow> f x)"

definition tryCatch :: "error + 'a \<Rightarrow> (error \<Rightarrow> error + 'a) \<Rightarrow> error + 'a" where
  "tryCatch body handler = (case body of Inl e \<Rightarrow> handler e | Inr x \<Rightarrow> Inr x)"

text \<open>
  The values \<open>JSON.parse\<close> can produce. A number is a double: finite (a rational) or,
  for a literal out of range, an infinity. \<open>JNull\<close> is also the \<open>null\<close> that the
  functions of the knowledge service return themselves. The members of an object are
  listed in the order in which \<open>Object.entries\<close> enumerates them.
\<close>

datatype jsnumber = Finite rat | PosInfinity | NegInfinity

datatype json =
    JNull
  | JBool bool
  | JNum jsnumber
  | JStr jsstring
  | JArr "json list"
  | JObj "(jsstring \<times> json) list"

fun truthy :: "json \<Rightarrow> bool" where
  "truthy JNull = False"
| "truthy (JBool b) = b"
| "truthy (JNum n) = (n \<noteq> Finite 0)"
| "truthy (JStr s) = (s \<noteq> [])"
| "truthy (JArr xs) = True"
| "truthy (JObj ps) = True"

text \<open>The decimal numeral of an array index, as \<open>Object.entries\<close> names the elements.\<close>

fun decimal :: "nat \<Rightarrow> jsstring" where
  "decimal n =
     (if n < 10 then [of_nat (48 + n)]
      else decimal (n div 10) @ [of_nat (48 + n mod 10)])"

declare decimal.simps [simp del]

fun objectEntries :: "json \<Rightarrow> error + (jsstring \<times> json) list" where
  "objectEntries (JObj ps) = Inr ps"
| "objectEntries (JArr xs) = Inr (zip (map decimal [0..<length xs]) xs)"
| "objectEntries (JStr s) = Inr (zip (map decimal [0..<length s]) (map (\<lambda>c. JStr [c]) s))"
| "objectEntries (JNum n) = Inr []"
| "objectEntries (JBool b) = Inr []"
| "objectEntries JNull = Inl TypeError"

text \<open>
  \<open>member v name\<close> is the property read \<open>v.name\<close> for the two names the service reads,
  \<open>id\<close> and \<open>text\<close>: an own member of an object, and \<open>undefined\<close> (\<open>None\<close>) on every
  other value that is not \<open>null\<close>, none of which has a property of either name.
\<close>

fun member :: "json \<Rightarrow> jsstring \<Rightarrow> json option" where
  "member (JObj ps) name = map_of ps name"
| "member v name = None"

section \<open>The keyword index: findMatchingEntryId\<close>

text \<open>
  \<^verbatim>\<open>
  function findMatchingEntryId(query, keywordIndex) {
    const lowerQuery = query.toLowerCase().trim();
    const departmentMatch = Object.entries(keywordIndex).find(([key, value]) =>
      key.toLowerCase() === lowerQuery && value.startsWith('Department:'));
    if (departmentMatch) { return departmentMatch[1]; }
    for (const [keyword, knowledgeId] of Object.entries(keywordIndex)) {
      if (knowledgeId.startsWith('Department:')) { continue; }
      if (lowerQuery.includes(keyword.toLowerCase())) { return knowledgeId; }
    }
    return null;
  }
  \<close>
  \<open>startsWith\<close> is called on the value of an entry: a value that is not a string has no
  such method and the call raises \<open>TypeError\<close>. In \<open>find\<close> the call is reached only
  when the key matches (\<open>&&\<close> evaluates its right operand only then); in the loop it is
  reached for every entry visited.
\<close>

definition departmentPrefix :: jsstring where
  "departmentPrefix = ascii ''Department:''"

fun findDepartmentMatch ::
  "(jsstring \<Rightarrow> jsstring) \<Rightarrow> jsstring \<Rightarrow> (jsstring \<times> json) list \<Rightarrow> error + (jsstring \<times> jsstring) option"
where
  "findDepartmentMatch toLowerCase lowerQuery [] = Inr None"
| "findDepartmentMatch toLowerCase lowerQuery ((key, val) # es) =
     (if toLowerCase key = lowerQuery then
        (case val of
           JStr v \<Rightarrow>
             if startsWith v departmentPrefix then Inr (Some (key, v))
             else findDepartmentMatch toLowerCase lowerQuery es
         | _ \<Rightarrow> Inl TypeError)
      else findDepartmentMatch toLowerCase lowerQuery es)"

fun scanKeywords ::
  "(jsstring \<Rightarrow> jsstring) \<Rightarrow> jsstring \<Rightarrow> (jsstring \<times> json) list \<Rightarrow> error + jsstring option"
where
  "scanKeywords toLowerCase lowerQuery [] = Inr None"
| "scanKeywords toLowerCase lowerQuery ((keyword, knowledgeId) # es) =
     (case knowledgeId of
        JStr v \<Rightarrow>
          if startsWith v departmentPrefix then scanKeywords toLowerCase lowerQuery es
          else if includes_str lowerQuery (toLowerCase keyword) then Inr (Some v)
          else scanKeywords toLowerCase lowerQuery es
      | _ \<Rightarrow> Inl TypeError)"

definition findMatchingEntryId ::
  "(jsstring \<Rightarrow> jsstring) \<Rightarrow> jsstring \<Rightarrow> json \<Rightarrow> error + jsstring option"
where
  "findMatchingEntryId toLowerCase query keywordIndex =
     (let lowerQuery = trim (toLowerCase query) in
      bindE (objectEntries keywordIndex) (\<lambda>entries.
      bindE (findDepartmentMatch toLowerCase lowerQuery entries) (\<lambda>departmentMatch.
        case departmentMatch of
          Some (key, v) \<Rightarrow> Inr (Some v)
        | None \<Rightarrow> scanKeywords toLowerCase lowerQuery entries)))"

text \<open>
  A keyword index of the documented shape, a flat object from strings to strings, given
  by its entries in enumeration order.
\<close>

definition keywordIndexOf :: "(jsstring \<times> jsstring) list \<Rightarrow> json" where
  "keywordIndexOf entries = JObj (map (\<lambda>(k, v). (k, JStr v)) entries)"

definition isDepartmentMarker :: "jsstring \<Rightarrow> bool" where
  "isDepartmentMarker v = startsWith v departmentPrefix"

text \<open>
  The order of \<open>Object.entries\<close>. An object holds its properties in the order in which
  they were created, which for the result of \<open>JSON.parse\<close> is the order of the first
  occurrence of each key in the text. \<open>Object.entries\<close> does not yield them in that order:
  it yields first the properties whose key is an array index, in ascending order of the
  index, and then the others in the order of creation. A key is an array index when it is
  the decimal numeral, without a leading zero, of a number below \<open>2^32 - 1\<close>.
  \<open>enumerationOrder\<close> takes the properties in the order of creation to the order of
  \<open>Object.entries\<close>.
\<close>

definition isDigit :: "code_unit \<Rightarrow> bool" where
  "isDigit c = (0x30 \<le> c \<and> c \<le> 0x39)"

definition digitsValue :: "jsstring \<Rightarrow> nat" where
  "digitsValue k = foldl (\<lambda>n c. 10 * n + (unat c - 48)) 0 k"

definition arrayIndex :: "jsstring \<Rightarrow> nat option" where
  "arrayIndex k =
     (if k \<noteq> [] \<and> list_all isDigit k \<and> (if hd k = 0x30 then length k = 1 else True)
         \<and> digitsValue k < 4294967295
      then Some (digitsValue k) else None)"

definition indexOf :: "jsstring \<times> 'a \<Rightarrow> nat" where
  "indexOf p = (case arrayIndex (fst p) of Some i \<Rightarrow> i | None \<Rightarrow> 0)"

definition enumerationOrder :: "(jsstring \<times> 'a) list \<Rightarrow> (jsstring \<times> 'a) list" where
  "enumerationOrder properties =
     sort_key indexOf (filter (\<lambda>p. arrayIndex (fst p) \<noteq> None) properties)
     @ filter (\<lambda>p. arrayIndex (fst p) = None) properties"

text \<open>
  The scan as the specification words it, to compare with the function: the value of the
  first property, in the order of creation, that has no department marker and whose
  lowercased keyword is a substring of the normalized query.
\<close>

definition scanInInsertionOrder ::
  "(jsstring \<Rightarrow> jsstring) \<Rightarrow> jsstring \<Rightarrow> (jsstring \<times> jsstring) list \<Rightarrow> jsstring option"
where
  "scanInInsertionOrder toLowerCase query properties =
     map_option snd
       (find (\<lambda>(k, v). includes_str (trim (toLowerCase query)) (toLowerCase k))
          (filter (\<lambda>(k, v). \<not> isDepartmentMarker v) properties))"

section \<open>Titles and descriptions of listing entries\<close>

text \<open>
  \<^verbatim>\<open>
  function extractTitle(text) {
    const titleMatch = text.match(/^#\s+(.+)$/m);
    return titleMatch ? titleMatch[1].trim() : <fallback literal>;
  }
  \<close>
  The regular expression is matched by backtracking, as the engine does it. With the
  \<open>m\<close> flag \<open>^\<close> holds at the start of the text and after a line terminator, and \<open>$\<close>
  holds at the end of the text and before a line terminator; \<open>.\<close> is any code unit but
  a line terminator; \<open>\s\<close> is \<open>isWhiteSpace\<close>, which contains the line terminators. A
  greedy \<open>+\<close> first takes the longest run and gives code units back one at a time.
  The search tries the positions of the text from left to right.
\<close>

definition atLineEnd :: "jsstring \<Rightarrow> bool" where
  "atLineEnd s = (case s of [] \<Rightarrow> True | c # _ \<Rightarrow> isLineTerminator c)"

definition isDot :: "code_unit \<Rightarrow> bool" where
  "isDot c = (\<not> isLineTerminator c)"

text \<open>\<open>matchDots k s\<close>: the group \<open>(.+)\<close> followed by \<open>$\<close>, trying \<open>k\<close>, \<open>k - 1\<close>, ..., 1 code units.\<close>

fun matchDots :: "nat \<Rightarrow> jsstring \<Rightarrow> jsstring option" where
  "matchDots 0 s = None"
| "matchDots (Suc k) s =
     (if atLineEnd (drop (Suc k) s) then Some (take (Suc k) s) else matchDots k s)"

text \<open>\<open>matchSpaces j s\<close>: \<open>\s+\<close> trying \<open>j\<close>, \<open>j - 1\<close>, ..., 1 code units, then the rest of the pattern.\<close>

fun matchSpaces :: "nat \<Rightarrow> jsstring \<Rightarrow> jsstring option" where
  "matchSpaces 0 s = None"
| "matchSpaces (Suc j) s =
     (case matchDots (length (takeWhile isDot (drop (Suc j) s))) (drop (Suc j) s) of
        Some cap \<Rightarrow> Some cap
      | None \<Rightarrow> matchSpaces j s)"

text \<open>The pattern after \<open>^\<close>, at the head of \<open>s\<close>; the result is the capture group.\<close>

definition matchHeading :: "jsstring \<Rightarrow> jsstring option" where
  "matchHeading s =
     (case s of
        [] \<Rightarrow> None
      | c # rest \<Rightarrow>
          if c = 0x23 then matchSpaces (length (takeWhile isWhiteSpace rest)) rest
          else None)"

text \<open>\<open>searchHeading bol s\<close>: the leftmost match in \<open>s\<close>; \<open>bol\<close> says whether \<open>^\<close> holds at its head.\<close>

fun searchHeading :: "bool \<Rightarrow> jsstring \<Rightarrow> jsstring option" where
  "searchHeading bol [] = None"
| "searchHeading bol (c # s) =
     (case (if bol then matchHeading (c # s) else None) of
        Some cap \<Rightarrow> Some cap
      | None \<Rightarrow> searchHeading (isLineTerminator c) s)"

text \<open>The fallback literals: U+672A U+547D U+540D U+77E5 U+8B58 U+689D U+76EE and U+7121 U+63CF U+8FF0.\<close>

definition untitledEntry :: jsstring where
  "untitledEntry = [0x672A, 0x547D, 0x540D, 0x77E5, 0x8B58, 0x689D, 0x76EE]"

definition noDescription :: jsstring where
  "noDescription = [0x7121, 0x63CF, 0x8FF0]"

definition extractTitle :: "jsstring \<Rightarrow> jsstring" where
  "extractTitle text =
     (case searchHeading True text of Some cap \<Rightarrow> trim cap | None \<Rightarrow> untitledEntry)"

text \<open>
  \<^verbatim>\<open>
  function extractDescription(text) {
    const paragraphs = text.split('\n\n');
    let description = '';
    for (const paragraph of paragraphs) {
      if (!paragraph.startsWith('#') && paragraph.trim().length > 0) {
        description = paragraph.trim();
        break;
      }
    }
    if (description.length > 50) {
      description = description.substring(0, 50) + '...';
    }
    return description || <fallback literal>;
  }
  \<close>
  \<open>splitParagraphs\<close> is \<open>split('\n\n')\<close>: the text is cut at each occurrence of two line
  feeds, found from left to right without overlap; the empty text gives one empty piece.
\<close>

definition consFirst :: "code_unit \<Rightarrow> jsstring list \<Rightarrow> jsstring list" where
  "consFirst c ps = (case ps of [] \<Rightarrow> [[c]] | p # rest \<Rightarrow> (c # p) # rest)"

fun splitParagraphs :: "jsstring \<Rightarrow> jsstring list" where
  "splitParagraphs [] = [[]]"
| "splitParagraphs [c] = [[c]]"
| "splitParagraphs (c # d # s) =
     (if c = 0x0A \<and> d = 0x0A then [] # splitParagraphs s
      else consFirst c (splitParagraphs (d # s)))"

fun firstDescription :: "jsstring list \<Rightarrow> jsstring" where
  "firstDescription [] = []"
| "firstDescription (paragraph # rest) =
     (if \<not> startsWith paragraph [0x23] \<and> length (trim paragraph) > 0 then trim paragraph
      else firstDescription rest)"

definition extractDescription :: "jsstring \<Rightarrow> jsstring" where
  "extractDescription text =
     (let paragraphs = splitParagraphs text;
          description = firstDescription paragraphs;
          description = (if length description > 50
                         then take 50 description @ ascii ''...'' else description)
      in if description = [] then noDescription else description)"

section \<open>The knowledge service over the key-value store\<close>

text \<open>
  The store is the binding \<open>config.kv.nursing_knowledge\<close>: \<open>None\<close> while it is not set,
  otherwise a namespace whose \<open>get\<close> resolves to a string or \<open>null\<close> or rejects, and
  whose \<open>list\<close> resolves to the names of the keys or rejects. \<open>JSON.parse\<close> is the
  parameter \<open>JSON_parse\<close>; \<open>None\<close> is its \<open>SyntaxError\<close>.
  The test \<open>!indexJson\<close> holds of \<open>null\<close> and of the empty string.
\<close>

record kv_namespace =
  kv_get :: "jsstring \<Rightarrow> error + jsstring option"
  kv_list :: "jsstring \<Rightarrow> error + jsstring list"

text \<open>
  Every catch block of the service logs the value it caught before it returns:
  \<^verbatim>\<open>
  const LOG_LEVELS = { DEBUG: 0, INFO: 1, WARN: 2, ERROR: 3 };
  const currentLevel = config.isDevelopment() ? LOG_LEVELS.DEBUG : LOG_LEVELS.INFO;
  function formatLogMessage(level, message, data) {
    const timestamp = new Date().toISOString();
    const dataString = data ? `\n${JSON.stringify(data, null, 2)}` : '';
    return `[${timestamp}] [${level}] ${message}${dataString}`;
  }
  function error(message, data) {
    if (currentLevel <= LOG_LEVELS.ERROR) {
      console.error(formatLogMessage('ERROR', message, data));
    }
  }
  \<close>
  The level is 0 or 1, so \<open>logger.error\<close> formats its message always, and
  \<open>JSON.stringify\<close> of \<open>{ error }\<close> raises when it cannot print the value caught:
  \<open>TypeError\<close> on a circular structure or a BigInt, and whatever a \<open>toJSON\<close> method of
  the value raises. The parameter \<open>stringifyRaises\<close>
  says of each host value what \<open>JSON.stringify\<close> raises on it, \<open>None\<close> when it prints
  the value, and is taken to say the same of a value each time. The error objects of the
  engine are printed (as \<open>{}\<close>). The other members of the logged objects (\<open>id\<close>,
  \<open>department\<close>) are strings. The calls of \<open>logger.debug\<close>, and the calls of \<open>logger.error\<close>
  outside the catch blocks, log strings and parsed JSON only, which \<open>JSON.stringify\<close>
  prints: they do not raise and are left out of the definitions. The clock and the
  methods of \<open>console\<close> are taken to return.
\<close>

definition loggerError :: "(nat \<Rightarrow> error option) \<Rightarrow> error \<Rightarrow> error + unit" where
  "loggerError stringifyRaises caught =
     (case caught of
        Rejection v \<Rightarrow> (case stringifyRaises v of None \<Rightarrow> Inr () | Some raised \<Rightarrow> Inl raised)
      | _ \<Rightarrow> Inr ())"

definition parseOrThrow :: "(jsstring \<Rightarrow> json option) \<Rightarrow> jsstring \<Rightarrow> error + json" where
  "parseOrThrow JSON_parse raw =
     (case JSON_parse raw of None \<Rightarrow> Inl SyntaxError | Some v \<Rightarrow> Inr v)"

text \<open>
  \<^verbatim>\<open>
  async function getKeywordIndex() {
    try {
      if (!config.kv.nursing_knowledge) { logger.error(<message>); return null; }
      const indexJson = await config.kv.nursing_knowledge.get('keyword-index');
      if (!indexJson) { logger.debug(<message>); return null; }
      return JSON.parse(indexJson);
    } catch (error) {
      logger.error(<message>, { error });
      return null;
    }
  }
  async function getKnowledgeById(id) {
    try {
      if (!config.kv.nursing_knowledge) { logger.error(<message>); return null; }
      const knowledgeJson = await config.kv.nursing_knowledge.get(`knowledge:${id}`);
      if (!knowledgeJson) { logger.debug(<message>); return null; }
      return JSON.parse(knowledgeJson);
    } catch (error) {
      logger.error(<message>, { error, id });
      return null;
    }
  }
  async function getAllKnowledgeIds() {
    try {
      if (!config.kv.nursing_knowledge) { logger.error(<message>); return []; }
      const keys = await config.kv.nursing_knowledge.list({ prefix: 'knowledge:' });
      return keys.keys.map(key => key.name.replace('knowledge:', ''));
    } catch (error) {
      logger.error(<message>, { error });
      return [];
    }
  }
  \<close>
\<close>

definition getKeywordIndex ::
  "(jsstring \<Rightarrow> json option) \<Rightarrow> (nat \<Rightarrow> error option) \<Rightarrow> kv_namespace option \<Rightarrow> error + json"
where
  "getKeywordIndex JSON_parse stringifyRaises kv =
     tryCatch
       (case kv of
          None \<Rightarrow> Inr JNull
        | Some ns \<Rightarrow>
            bindE (kv_get ns (ascii ''keyword-index'')) (\<lambda>indexJson.
              case indexJson of
                None \<Rightarrow> Inr JNull
              | Some raw \<Rightarrow> if raw = [] then Inr JNull else parseOrThrow JSON_parse raw))
       (\<lambda>error. bindE (loggerError stringifyRaises error) (\<lambda>logged. Inr JNull))"

definition getKnowledgeById ::
  "(jsstring \<Rightarrow> json option) \<Rightarrow> (nat \<Rightarrow> error option) \<Rightarrow> kv_namespace option \<Rightarrow> jsstring
     \<Rightarrow> error + json"
where
  "getKnowledgeById JSON_parse stringifyRaises kv ident =
     tryCatch
       (case kv of
          None \<Rightarrow> Inr JNull
        | Some ns \<Rightarrow>
            bindE (kv_get ns (ascii ''knowledge:'' @ ident)) (\<lambda>knowledgeJson.
              case knowledgeJson of
                None \<Rightarrow> Inr JNull
              | Some raw \<Rightarrow> if raw = [] then Inr JNull else parseOrThrow JSON_parse raw))
       (\<lambda>error. bindE (loggerError stringifyRaises error) (\<lambda>logged. Inr JNull))"

definition getAllKnowledgeIds ::
  "(nat \<Rightarrow> error option) \<Rightarrow> kv_namespace option \<Rightarrow> error + jsstring list"
where
  "getAllKnowledgeIds stringifyRaises kv =
     tryCatch
       (case kv of
          None \<Rightarrow> Inr []
        | Some ns \<Rightarrow>
            bindE (kv_list ns (ascii ''knowledge:'')) (\<lambda>keys.
              Inr (map (remove_first (ascii ''knowledge:'')) keys)))
       (\<lambda>error. bindE (loggerError stringifyRaises error) (\<lambda>logged. Inr []))"

text \<open>
  An entry of a department listing. \<open>entry_id\<close> is \<open>entry.id\<close>, which is \<open>undefined\<close>
  (\<open>None\<close>) when the stored record has no such member. \<open>extractTitle(entry.text)\<close> calls
  \<open>match\<close> on \<open>entry.text\<close> and raises \<open>TypeError\<close> unless that is a string.
\<close>

record listing_entry =
  entry_id :: "json option"
  entry_title :: jsstring
  entry_description :: jsstring

definition asText :: "json option \<Rightarrow> error + jsstring" where
  "asText v = (case v of Some (JStr s) \<Rightarrow> Inr s | _ \<Rightarrow> Inl TypeError)"

definition summarize :: "json \<Rightarrow> error + listing_entry" where
  "summarize entry =
     bindE (asText (member entry (ascii ''text''))) (\<lambda>text.
       Inr \<lparr>entry_id = member entry (ascii ''id''),
            entry_title = extractTitle text,
            entry_description = extractDescription text\<rparr>)"

text \<open>
  \<^verbatim>\<open>
  async function getDepartmentEntries(department) {
    try {
      const normalizedDepartment = department.trim().toLowerCase();
      const allIds = await getAllKnowledgeIds();
      const departmentIds = allIds.filter(id => id.startsWith(`${normalizedDepartment}-`));
      if (departmentIds.length === 0) { return []; }
      const entries = await Promise.all(
        departmentIds.map(async id => {
          const entry = await getKnowledgeById(id);
          if (entry) {
            return { id: entry.id, title: extractTitle(entry.text),
                     description: extractDescription(entry.text) };
          }
          return null;
        })
      );
      return entries.filter(entry => entry !== null);
    } catch (error) {
      logger.error(<message>, { error, department });
      return [];
    }
  }
  \<close>
  \<open>Promise.all\<close> resolves to the results in order when every promise resolves. When some
  reject it rejects with the value of the one that rejects first in time, which the
  store decides: the parameter \<open>settlesFirst\<close> picks it from the rejections.
\<close>

fun rejections :: "(error + 'a) list \<Rightarrow> error list" where
  "rejections [] = []"
| "rejections (Inl e # rs) = e # rejections rs"
| "rejections (Inr x # rs) = rejections rs"

fun resolutions :: "(error + 'a) list \<Rightarrow> 'a list" where
  "resolutions [] = []"
| "resolutions (Inl e # rs) = resolutions rs"
| "resolutions (Inr x # rs) = x # resolutions rs"

definition promiseAll :: "(error list \<Rightarrow> error) \<Rightarrow> (error + 'a) list \<Rightarrow> error + 'a list" where
  "promiseAll settlesFirst rs =
     (case rejections rs of
        [] \<Rightarrow> Inr (resolutions rs)
      | e # es \<Rightarrow> Inl (settlesFirst (e # es)))"

fun dropNulls :: "'a option list \<Rightarrow> 'a list" where
  "dropNulls [] = []"
| "dropNulls (None # es) = dropNulls es"
| "dropNulls (Some e # es) = e # dropNulls es"

definition getDepartmentEntries ::
  "(jsstring \<Rightarrow> jsstring) \<Rightarrow> (jsstring \<Rightarrow> json option) \<Rightarrow> (nat \<Rightarrow> error option)
     \<Rightarrow> (error list \<Rightarrow> error) \<Rightarrow> kv_namespace option \<Rightarrow> jsstring \<Rightarrow> error + listing_entry list"
where
  "getDepartmentEntries toLowerCase JSON_parse stringifyRaises settlesFirst kv department =
     tryCatch
       (let normalizedDepartment = toLowerCase (trim department) in
        bindE (getAllKnowledgeIds stringifyRaises kv) (\<lambda>allIds.
          let departmentIds =
                filter (\<lambda>ident. startsWith ident (normalizedDepartment @ ascii ''-'')) allIds
          in if length departmentIds = 0 then Inr []
             else
               bindE (promiseAll settlesFirst (map (\<lambda>ident.
                        bindE (getKnowledgeById JSON_parse stringifyRaises kv ident) (\<lambda>entry.
                          if truthy entry then bindE (summarize entry) (\<lambda>e. Inr (Some e))
                          else Inr None)) departmentIds)) (\<lambda>entries.
                 Inr (dropNulls entries))))
       (\<lambda>error. bindE (loggerError stringifyRaises error) (\<lambda>logged. Inr []))"

text \<open>
  \<^verbatim>\<open>
  async function getResponse(query) {
    logger.debug(<message>, { query });
    try {
      const keywordIndex = await getKeywordIndex();
      if (!keywordIndex) { logger.debug(<message>); return null; }
      const knowledgeId = findMatchingEntryId(query, keywordIndex);
      if (!knowledgeId) { logger.debug(<message>); return null; }
      if (knowledgeId.startsWith('Department:')) {
        const department = knowledgeId.replace('Department:', '');
        logger.debug(<message with department>);
        const departmentEntries = await getDepartmentEntries(department);
        if (departmentEntries && departmentEntries.length > 0) {
          logger.debug(<message with departmentEntries.length>, { department });
          return { isDepartmentListing: true, department: department, entries: departmentEntries };
        } else {
          logger.debug(<message with department>);
          return { isDepartmentListing: true, department: department, entries: [] };
        }
      }
      const knowledgeEntry = await getKnowledgeById(knowledgeId);
      if (knowledgeEntry) {
        logger.debug(<message>, { id: knowledgeEntry.id });
        return knowledgeEntry;
      }
      logger.debug(<message>, { id: knowledgeId });
      return null;
    } catch (error) {
      logger.error(<message>, { error });
      return null;
    }
  }
  \<close>
  What \<open>getResponse\<close> resolves to is \<open>null\<close>, the object
  \<open>{isDepartmentListing: true, department, entries}\<close>, or a stored record as it was parsed.
  The test \<open>!knowledgeId\<close> holds of \<open>null\<close> and of the empty string. The calls of
  \<open>logger.debug\<close> are given the query, a department code, an id of the index (strings)
  and the member \<open>id\<close> of a parsed record, all of which \<open>JSON.stringify\<close> prints.
\<close>

datatype response =
    Null
  | DepartmentListing jsstring "listing_entry list"
  | KnowledgeEntry json

definition getResponse ::
  "(jsstring \<Rightarrow> jsstring) \<Rightarrow> (jsstring \<Rightarrow> json option) \<Rightarrow> (nat \<Rightarrow> error option)
     \<Rightarrow> (error list \<Rightarrow> error) \<Rightarrow> kv_namespace option \<Rightarrow> jsstring \<Rightarrow> error + response"
where
  "getResponse toLowerCase JSON_parse stringifyRaises settlesFirst kv query =
     tryCatch
       (bindE (getKeywordIndex JSON_parse stringifyRaises kv) (\<lambda>keywordIndex.
          if \<not> truthy keywordIndex then Inr Null
          else
            bindE (findMatchingEntryId toLowerCase query keywordIndex) (\<lambda>matched.
              case matched of
                None \<Rightarrow> Inr Null
              | Some knowledgeId \<Rightarrow>
                if knowledgeId = [] then Inr Null
                else if startsWith knowledgeId departmentPrefix then
                  (let department = remove_first departmentPrefix knowledgeId in
                   bindE (getDepartmentEntries toLowerCase JSON_parse stringifyRaises settlesFirst
                            kv department)
                     (\<lambda>departmentEntries.
                        if length departmentEntries > 0
                        then Inr (DepartmentListing department departmentEntries)
                        else Inr (DepartmentListing department [])))
                else
                  bindE (getKnowledgeById JSON_parse stringifyRaises kv knowledgeId)
                    (\<lambda>knowledgeEntry.
                       if truthy knowledgeEntry then Inr (KnowledgeEntry knowledgeEntry)
                       else Inr Null))))
       (\<lambda>error. bindE (loggerError stringifyRaises error) (\<lambda>logged. Inr Null))"

section \<open>The response service\<close>

text \<open>
  \<^verbatim>\<open>
  function handleSpecialKeywords(query) {
    if (query.includes(G1) || query.includes(G2) || query.includes(G3)) { return <greeting reply>; }
    if (query.includes(T1) || query.includes(T2)) { return <gratitude reply>; }
    if (query.includes(H1) || query.includes('help') || query.includes(H3)) { return <help reply>; }
    return null;
  }
  \<close>
  The phrases, as code units: \<open>G1\<close> = U+4F60 U+597D, \<open>G2\<close> = U+54C8 U+56C9, \<open>G3\<close> = U+55E8;
  \<open>T1\<close> = U+8B1D U+8B1D, \<open>T2\<close> = U+611F U+8B1D; \<open>H1\<close> = U+5E6B U+52A9,
  \<open>H3\<close> = U+4F7F U+7528 U+8AAA U+660E. The replies and the three pools are the literals of
  the source, code unit by code unit.
\<close>

definition greeting1 :: jsstring where
  "greeting1 =
     [0x4F60, 0x597D]"

definition greeting2 :: jsstring where
  "greeting2 =
     [0x54C8, 0x56C9]"

definition greeting3 :: jsstring where
  "greeting3 =
     [0x55E8]"

definition greetingReply :: jsstring where
  "greetingReply =
     [0x60A8, 0x597D, 0xFF01, 0x6211, 0x662F, 0x4E09, 0x7E3D, 0x8B77, 0x7406, 0x52A9, 0x624B,
      0xFF0C, 0x5F88, 0x9AD8, 0x8208, 0x70BA, 0x60A8, 0x670D, 0x52D9, 0x3002, 0x6709, 0x4EC0,
      0x9EBC, 0x6211, 0x53EF, 0x4EE5, 0x5E6B, 0x60A8, 0x7684, 0x55CE, 0xFF1F]"

definition thanks1 :: jsstring where
  "thanks1 =
     [0x8B1D, 0x8B1D]"

definition thanks2 :: jsstring where
  "thanks2 =
     [0x611F, 0x8B1D]"

definition thanksReply :: jsstring where
  "thanksReply =
     [0x4E0D, 0x5BA2, 0x6C23, 0xFF01, 0x5F88, 0x9AD8, 0x8208, 0x80FD, 0x5E6B, 0x5230, 0x60A8,
      0x3002, 0x5982, 0x679C, 0x6709, 0x5176, 0x4ED6, 0x554F, 0x984C, 0xFF0C, 0x96A8, 0x6642,
      0x544A, 0x8A34, 0x6211, 0x3002]"

definition help1 :: jsstring where
  "help1 =
     [0x5E6B, 0x52A9]"

definition help2 :: jsstring where
  "help2 = ascii ''help''"

definition help3 :: jsstring where
  "help3 =
     [0x4F7F, 0x7528, 0x8AAA, 0x660E]"

definition helpReply :: jsstring where
  "helpReply =
     [0x60A8, 0x53EF, 0x4EE5, 0x4F7F, 0x7528, 0x4EE5, 0x4E0B, 0x65B9, 0x5F0F, 0x627E, 0x5230,
      0x6240, 0x9700, 0x8CC7, 0x8A0A, 0xFF1A, 0x000A, 0x000A, 0x0031, 0x002E, 0x0020, 0x8F38,
      0x5165, 0x90E8, 0x9580, 0x4EE3, 0x78BC, 0xFF08, 0x5982, 0x300C, 0x0049, 0x0043, 0x0055,
      0x300D, 0x3001, 0x300C, 0x0045, 0x0044, 0x300D, 0x3001, 0x300C, 0x004F, 0x0052, 0x300D,
      0x3001, 0x300C, 0x004F, 0x0050, 0x0044, 0x300D, 0x3001, 0x300C, 0x0057, 0x0041, 0x0052,
      0x0044, 0x300D, 0xFF09, 0x67E5, 0x770B, 0x8A72, 0x90E8, 0x9580, 0x7684, 0x6240, 0x6709,
      0x6559, 0x5B78, 0x5167, 0x5BB9, 0x000A, 0x000A, 0x0032, 0x002E, 0x0020, 0x8F38, 0x5165,
      0x7279, 0x5B9A, 0x95DC, 0x9375, 0x8A5E, 0xFF08, 0x5982, 0x300C, 0x0043, 0x0056, 0x0056,
      0x0048, 0x300D, 0x3001, 0x300C, 0x900F, 0x6790, 0x300D, 0x7B49, 0xFF09, 0x67E5, 0x627E,
      0x5177, 0x9AD4, 0x7684, 0x6559, 0x5B78, 0x8CC7, 0x8A0A, 0x000A, 0x000A, 0x0033, 0x002E,
      0x0020, 0x4E5F, 0x53EF, 0x8F38, 0x5165, 0x60A8, 0x60F3, 0x4E86, 0x89E3, 0x7684, 0x91AB,
      0x7642, 0x8A2D, 0x5099, 0x6216, 0x6D41, 0x7A0B, 0x540D, 0x7A31]"

definition defaultResponses_0 :: jsstring where
  "defaultResponses_0 =
     [0x5F88, 0x62B1, 0x6B49, 0xFF0C, 0x6211, 0x76EE, 0x524D, 0x6C92, 0x6709, 0x9019, 0x65B9,
      0x9762, 0x7684, 0x8CC7, 0x8A0A, 0x3002, 0x60A8, 0x53EF, 0x4EE5, 0x5617, 0x8A66, 0x8F38,
      0x5165, 0x90E8, 0x9580, 0x540D, 0x7A31, 0xFF08, 0x5982, 0x300C, 0x0049, 0x0043, 0x0055,
      0x300D, 0x3001, 0x300C, 0x004F, 0x0052, 0x300D, 0x3001, 0x300C, 0x0045, 0x0044, 0x300D,
      0x7B49, 0xFF09, 0x6216, 0x7279, 0x5B9A, 0x6559, 0x5B78, 0x95DC, 0x9375, 0x8A5E, 0xFF08,
      0x5982, 0x300C, 0x0043, 0x0056, 0x0056, 0x0048, 0x300D, 0xFF09, 0x4F86, 0x67E5, 0x627E,
      0x76F8, 0x95DC, 0x77E5, 0x8B58, 0x3002]"

definition defaultResponses_1 :: jsstring where
  "defaultResponses_1 =
     [0x6211, 0x7121, 0x6CD5, 0x56DE, 0x7B54, 0x9019, 0x500B, 0x554F, 0x984C, 0x3002, 0x8ACB,
      0x5617, 0x8A66, 0x8F38, 0x5165, 0x90E8, 0x9580, 0x4EE3, 0x78BC, 0xFF08, 0x5982, 0x300C,
      0x0049, 0x0043, 0x0055, 0x300D, 0x3001, 0x300C, 0x004F, 0x0050, 0x0044, 0x300D, 0x7B49,
      0xFF09, 0x67E5, 0x770B, 0x8A72, 0x90E8, 0x9580, 0x6240, 0x6709, 0x53EF, 0x7528, 0x7684,
      0x6559, 0x5B78, 0x5167, 0x5BB9, 0xFF0C, 0x6216, 0x8F38, 0x5165, 0x7279, 0x5B9A, 0x95DC,
      0x9375, 0x8A5E, 0x67E5, 0x627E, 0x5177, 0x9AD4, 0x77E5, 0x8B58, 0x3002]"

definition defaultResponses_2 :: jsstring where
  "defaultResponses_2 =
     [0x62B1, 0x6B49, 0xFF0C, 0x6211, 0x4E0D, 0x592A, 0x7406, 0x89E3, 0x60A8, 0x7684, 0x554F,
      0x984C, 0x3002, 0x60A8, 0x53EF, 0x4EE5, 0x76F4, 0x63A5, 0x8F38, 0x5165, 0x90E8, 0x9580,
      0x540D, 0x7A31, 0xFF08, 0x4F8B, 0x5982, 0x300C, 0x0049, 0x0043, 0x0055, 0x300D, 0xFF09,
      0x4F86, 0x67E5, 0x770B, 0x8A72, 0x90E8, 0x9580, 0x7684, 0x6240, 0x6709, 0x6559, 0x5B78,
      0x5167, 0x5BB9, 0xFF0C, 0x6216, 0x8F38, 0x5165, 0x5177, 0x9AD4, 0x7684, 0x6559, 0x5B78,
      0x95DC, 0x9375, 0x8A5E, 0x3002]"

definition defaultResponses_3 :: jsstring where
  "defaultResponses_3 =
     [0x9019, 0x500B, 0x554F, 0x984C, 0x8D85, 0x51FA, 0x4E86, 0x6211, 0x7684, 0x77E5, 0x8B58,
      0x7BC4, 0x570D, 0x3002, 0x60A8, 0x53EF, 0x4EE5, 0x5617, 0x8A66, 0x8F38, 0x5165, 0x90E8,
      0x9580, 0x4EE3, 0x78BC, 0x6216, 0x7279, 0x5B9A, 0x91AB, 0x7642, 0x8A2D, 0x5099, 0x7684,
      0x540D, 0x7A31, 0x4F86, 0x627E, 0x5230, 0x76F8, 0x95DC, 0x6559, 0x5B78, 0x8CC7, 0x8A0A,
      0x3002]"

definition defaultResponses :: "jsstring list" where
  "defaultResponses = [defaultResponses_0, defaultResponses_1, defaultResponses_2, defaultResponses_3]"

definition friendlyPrefixes_0 :: jsstring where
  "friendlyPrefixes_0 =
     [0x5F88, 0x9AD8, 0x8208, 0x6536, 0x5230, 0x60A8, 0x7684, 0x554F, 0x984C, 0xFF01]"

definition friendlyPrefixes_1 :: jsstring where
  "friendlyPrefixes_1 =
     [0x8B1D, 0x8B1D, 0x60A8, 0x7684, 0x63D0, 0x554F, 0x3002]"

definition friendlyPrefixes_2 :: jsstring where
  "friendlyPrefixes_2 =
     [0x6211, 0x5F88, 0x6A02, 0x610F, 0x5E6B, 0x52A9, 0x60A8, 0x3002]"

definition friendlyPrefixes_3 :: jsstring where
  "friendlyPrefixes_3 =
     [0x611F, 0x8B1D, 0x60A8, 0x5411, 0x6211, 0x8AEE, 0x8A62, 0x3002]"

definition friendlyPrefixes :: "jsstring list" where
  "friendlyPrefixes = [friendlyPrefixes_0, friendlyPrefixes_1, friendlyPrefixes_2, friendlyPrefixes_3]"

definition encouragingSuffixes_0 :: jsstring where
  "encouragingSuffixes_0 =
     [0x5982, 0x679C, 0x60A8, 0x6709, 0x5176, 0x4ED6, 0x554F, 0x984C, 0xFF0C, 0x8ACB, 0x96A8,
      0x6642, 0x63D0, 0x554F, 0x3002]"

definition encouragingSuffixes_1 :: jsstring where
  "encouragingSuffixes_1 =
     [0x5E0C, 0x671B, 0x6211, 0x7684, 0x56DE, 0x7B54, 0x5C0D, 0x60A8, 0x6709, 0x6240, 0x5E6B,
      0x52A9, 0x3002]"

definition encouragingSuffixes_2 :: jsstring where
  "encouragingSuffixes_2 =
     [0x5982, 0x679C, 0x9700, 0x8981, 0x66F4, 0x591A, 0x8CC7, 0x8A0A, 0xFF0C, 0x8ACB, 0x544A,
      0x8A34, 0x6211, 0x3002]"

definition encouragingSuffixes_3 :: jsstring where
  "encouragingSuffixes_3 =
     [0x60A8, 0x9084, 0x6709, 0x5176, 0x4ED6, 0x554F, 0x984C, 0x55CE, 0xFF1F, 0x6211, 0x5F88,
      0x6A02, 0x610F, 0x7E7C, 0x7E8C, 0x70BA, 0x60A8, 0x670D, 0x52D9, 0x3002]"

definition encouragingSuffixes :: "jsstring list" where
  "encouragingSuffixes = [encouragingSuffixes_0, encouragingSuffixes_1, encouragingSuffixes_2, encouragingSuffixes_3]"

definition handleSpecialKeywords :: "jsstring \<Rightarrow> jsstring option" where
  "handleSpecialKeywords query =
     (if includes_str query greeting1 \<or> includes_str query greeting2 \<or> includes_str query greeting3
      then Some greetingReply
      else if includes_str query thanks1 \<or> includes_str query thanks2
      then Some thanksReply
      else if includes_str query help1 \<or> includes_str query help2 \<or> includes_str query help3
      then Some helpReply
      else None)"

text \<open>
  \<^verbatim>\<open>
  function generateDefaultResponse() {
    const prefix = friendlyPrefixes[Math.floor(Math.random() * friendlyPrefixes.length)];
    const response = defaultResponses[Math.floor(Math.random() * defaultResponses.length)];
    const suffix = encouragingSuffixes[Math.floor(Math.random() * encouragingSuffixes.length)];
    return `${prefix} ${response} ${suffix}`;
  }
  \<close>
  The three values that the calls of \<open>Math.random\<close> return are the arguments \<open>r1\<close>,
  \<open>r2\<close>, \<open>r3\<close>. They are doubles, hence rationals, and the product with the length 4
  is exact. An index outside the array reads \<open>undefined\<close>, which the template prints
  as the word.
\<close>

definition pick :: "jsstring list \<Rightarrow> rat \<Rightarrow> jsstring" where
  "pick pool r =
     (let i = \<lfloor>r * of_nat (length pool)\<rfloor>
      in if 0 \<le> i \<and> i < int (length pool) then pool ! nat i else ascii ''undefined'')"

definition generateDefaultResponse :: "rat \<Rightarrow> rat \<Rightarrow> rat \<Rightarrow> jsstring" where
  "generateDefaultResponse r1 r2 r3 =
     (let prefix = pick friendlyPrefixes r1;
          response = pick defaultResponses r2;
          suffix = pick encouragingSuffixes r3
      in prefix @ ascii '' '' @ response @ ascii '' '' @ suffix)"

definition generateGeneralResponse :: "jsstring \<Rightarrow> rat \<Rightarrow> rat \<Rightarrow> rat \<Rightarrow> jsstring" where
  "generateGeneralResponse query r1 r2 r3 =
     (case handleSpecialKeywords query of
        Some specialResponse \<Rightarrow> specialResponse
      | None \<Rightarrow> generateDefaultResponse r1 r2 r3)"

text \<open>The 64 texts that the template can give, in the order prefix, body, suffix.\<close>

definition knownCombinations :: "jsstring list" where
  "knownCombinations =
     concat (map (\<lambda>prefix. concat (map (\<lambda>response. map (\<lambda>suffix.
       prefix @ ascii '' '' @ response @ ascii '' '' @ suffix) encouragingSuffixes)
       defaultResponses)) friendlyPrefixes)"

section \<open>The dialog service\<close>

text \<open>
  The module keeps \<open>userContexts\<close>, a \<open>Map\<close> from user ids to contexts. The state of the
  model is that map together with the number of times the clock has been read:
  \<open>new Date().toISOString()\<close> is the parameter \<open>clock\<close> at that number, so that every
  read may give another time.
\<close>

datatype role = User | Bot

record dialog_entry =
  role :: role
  content :: jsstring
  timestamp :: jsstring

record user_context =
  history :: "dialog_entry list"
  lastInteraction :: jsstring

record dialog_state =
  userContexts :: "jsstring \<rightharpoonup> user_context"
  clockReads :: nat

definition MAX_DIALOG_HISTORY :: nat where
  "MAX_DIALOG_HISTORY = 10"

definition initialState :: dialog_state where
  "initialState = \<lparr>userContexts = Map.empty, clockReads = 0\<rparr>"

definition now :: "(nat \<Rightarrow> jsstring) \<Rightarrow> dialog_state \<Rightarrow> jsstring \<times> dialog_state" where
  "now clock s = (clock (clockReads s), s\<lparr>clockReads := Suc (clockReads s)\<rparr>)"

text \<open>
  \<^verbatim>\<open>
  function getUserContext(userId) {
    if (!userContexts.has(userId)) {
      userContexts.set(userId, { history: [], lastInteraction: new Date().toISOString() });
    }
    const context = userContexts.get(userId);
    context.lastInteraction = new Date().toISOString();
    return context;
  }
  \<close>
  The context returned is the object in the map; the model returns its value and the
  state in which the map holds that value.
\<close>

definition getUserContext ::
  "(nat \<Rightarrow> jsstring) \<Rightarrow> jsstring \<Rightarrow> dialog_state \<Rightarrow> user_context \<times> dialog_state"
where
  "getUserContext clock userId s =
     (case userContexts s userId of
        None \<Rightarrow>
          (let (created, s1) = now clock s;
               (touched, s2) = now clock s1;
               context = \<lparr>history = [], lastInteraction = created\<rparr>\<lparr>lastInteraction := touched\<rparr>
           in (context, s2\<lparr>userContexts := (userContexts s2)(userId \<mapsto> context)\<rparr>))
      | Some existing \<Rightarrow>
          (let (touched, s1) = now clock s;
               context = existing\<lparr>lastInteraction := touched\<rparr>
           in (context, s1\<lparr>userContexts := (userContexts s1)(userId \<mapsto> context)\<rparr>)))"

text \<open>
  The four recording functions share one body: \<open>getUserContext\<close>, \<open>history.push\<close> of an
  entry stamped with a further read of the clock, and
  \<^verbatim>\<open>if (context.history.length > MAX_DIALOG_HISTORY) { context.history.shift(); }\<close>
\<close>

definition limitHistory :: "dialog_entry list \<Rightarrow> dialog_entry list" where
  "limitHistory h = (if length h > MAX_DIALOG_HISTORY then tl h else h)"

definition pushEntry ::
  "(nat \<Rightarrow> jsstring) \<Rightarrow> jsstring \<Rightarrow> role \<Rightarrow> jsstring \<Rightarrow> dialog_state \<Rightarrow> dialog_state"
where
  "pushEntry clock userId r text s =
     (let (context, s1) = getUserContext clock userId s;
          (stamp, s2) = now clock s1;
          pushed = history context @ [\<lparr>role = r, content = text, timestamp = stamp\<rparr>];
          context = context\<lparr>history := limitHistory pushed\<rparr>
      in s2\<lparr>userContexts := (userContexts s2)(userId \<mapsto> context)\<rparr>)"

definition recordUserMessage ::
  "(nat \<Rightarrow> jsstring) \<Rightarrow> jsstring \<Rightarrow> jsstring \<Rightarrow> dialog_state \<Rightarrow> dialog_state"
where
  "recordUserMessage clock userId message s = pushEntry clock userId User message s"

text \<open>The placeholders: \<open>[\<close> U+5716 U+7247 \<open>: id]\<close> for an image, \<open>[\<close> U+5F71 U+7247 \<open>: id]\<close> for a video.\<close>

definition imagePlaceholder :: "jsstring \<Rightarrow> jsstring" where
  "imagePlaceholder imageId = [0x005B, 0x5716, 0x7247, 0x003A, 0x0020] @ imageId @ [0x005D]"

definition videoPlaceholder :: "jsstring \<Rightarrow> jsstring" where
  "videoPlaceholder videoId = [0x005B, 0x5F71, 0x7247, 0x003A, 0x0020] @ videoId @ [0x005D]"

definition recordUserImage ::
  "(nat \<Rightarrow> jsstring) \<Rightarrow> jsstring \<Rightarrow> jsstring \<Rightarrow> dialog_state \<Rightarrow> dialog_state"
where
  "recordUserImage clock userId imageId s =
     pushEntry clock userId User (imagePlaceholder imageId) s"

definition recordUserVideo ::
  "(nat \<Rightarrow> jsstring) \<Rightarrow> jsstring \<Rightarrow> jsstring \<Rightarrow> dialog_state \<Rightarrow> dialog_state"
where
  "recordUserVideo clock userId videoId s =
     pushEntry clock userId User (videoPlaceholder videoId) s"

text \<open>
  A message of the bot is a string, or an array or object of message data that is
  recorded as \<open>JSON.stringify\<close> prints it; that function is the parameter \<open>JSON_stringify\<close>.
\<close>

datatype bot_message = TextMessage jsstring | StructuredMessage json

definition recordBotMessage ::
  "(json \<Rightarrow> jsstring) \<Rightarrow> (nat \<Rightarrow> jsstring) \<Rightarrow> jsstring \<Rightarrow> bot_message \<Rightarrow> dialog_state
     \<Rightarrow> dialog_state"
where
  "recordBotMessage JSON_stringify clock userId message s =
     (let messageStr = (case message of
                          TextMessage m \<Rightarrow> m
                        | StructuredMessage v \<Rightarrow> JSON_stringify v)
      in pushEntry clock userId Bot messageStr s)"

definition getDialogHistory ::
  "(nat \<Rightarrow> jsstring) \<Rightarrow> jsstring \<Rightarrow> dialog_state \<Rightarrow> dialog_entry list \<times> dialog_state"
where
  "getDialogHistory clock userId s =
     (let (context, s1) = getUserContext clock userId s in (history context, s1))"

definition clearUserContext :: "jsstring \<Rightarrow> dialog_state \<Rightarrow> dialog_state" where
  "clearUserContext userId s = s\<lparr>userContexts := (userContexts s)(userId := None)\<rparr>"

text \<open>The operations of the service as data, to speak about sequences of calls.\<close>

datatype dialog_op =
    RecordUserMessage jsstring jsstring
  | RecordUserImage jsstring jsstring
  | RecordUserVideo jsstring jsstring
  | RecordBotMessage jsstring bot_message
  | GetDialogHistory jsstring
  | ClearUserContext jsstring

fun applyOp ::
  "(json \<Rightarrow> jsstring) \<Rightarrow> (nat \<Rightarrow> jsstring) \<Rightarrow> dialog_op \<Rightarrow> dialog_state \<Rightarrow> dialog_state"
where
  "applyOp js clock (RecordUserMessage u m) s = recordUserMessage clock u m s"
| "applyOp js clock (RecordUserImage u i) s = recordUserImage clock u i s"
| "applyOp js clock (RecordUserVideo u v) s = recordUserVideo clock u v s"
| "applyOp js clock (RecordBotMessage u m) s = recordBotMessage js clock u m s"
| "applyOp js clock (GetDialogHistory u) s = snd (getDialogHistory clock u s)"
| "applyOp js clock (ClearUserContext u) s = clearUserContext u s"

fun runOps ::
  "(json \<Rightarrow> jsstring) \<Rightarrow> (nat \<Rightarrow> jsstring) \<Rightarrow> dialog_op list \<Rightarrow> dialog_state \<Rightarrow> dialog_state"
where
  "runOps js clock [] s = s"
| "runOps js clock (op # ops) s = runOps js clock ops (applyOp js clock op s)"

text \<open>
  Notions to state properties of the service. \<open>historyOf\<close> is the history of a user,
  empty when the user has no context. \<open>touchTime\<close> is the number of the clock read that
  \<open>getUserContext\<close> stores as \<open>lastInteraction\<close>: the creation of a context reads the
  clock once before. \<open>appended\<close> is the role and content of the entry that an operation
  pushes, \<open>newest n\<close> the last \<open>n\<close> elements of a list.
\<close>

definition historyOf :: "dialog_state \<Rightarrow> jsstring \<Rightarrow> dialog_entry list" where
  "historyOf s userId =
     (case userContexts s userId of None \<Rightarrow> [] | Some context \<Rightarrow> history context)"

definition touchTime :: "dialog_state \<Rightarrow> jsstring \<Rightarrow> nat" where
  "touchTime s userId =
     (if userContexts s userId = None then Suc (clockReads s) else clockReads s)"

fun opUser :: "dialog_op \<Rightarrow> jsstring" where
  "opUser (RecordUserMessage u m) = u"
| "opUser (RecordUserImage u i) = u"
| "opUser (RecordUserVideo u v) = u"
| "opUser (RecordBotMessage u m) = u"
| "opUser (GetDialogHistory u) = u"
| "opUser (ClearUserContext u) = u"

fun isAppend :: "dialog_op \<Rightarrow> bool" where
  "isAppend (GetDialogHistory u) = False"
| "isAppend (ClearUserContext u) = False"
| "isAppend op = True"

fun appended :: "(json \<Rightarrow> jsstring) \<Rightarrow> dialog_op \<Rightarrow> role \<times> jsstring" where
  "appended js (RecordUserMessage u m) = (User, m)"
| "appended js (RecordUserImage u i) = (User, imagePlaceholder i)"
| "appended js (RecordUserVideo u v) = (User, videoPlaceholder v)"
| "appended js (RecordBotMessage u (TextMessage m)) = (Bot, m)"
| "appended js (RecordBotMessage u (StructuredMessage v)) = (Bot, js v)"
| "appended js op = (Bot, [])"

definition newest :: "nat \<Rightarrow> 'a list \<Rightarrow> 'a list" where
  "newest n xs = drop (length xs - n) xs"

definition entryOf :: "dialog_entry \<Rightarrow> role \<times> jsstring" where
  "entryOf e = (role e, content e)"

definition bounded :: "dialog_state \<Rightarrow> bool" where
  "bounded s = (\<forall>u. length (historyOf s u) \<le> MAX_DIALOG_HISTORY)"

text \<open>Concrete inputs: fifteen messages of one user, a user with a full history, a clock.\<close>

definition fifteenMessages :: "dialog_op list" where
  "fifteenMessages = map (\<lambda>c. RecordUserMessage (ascii ''u'') [c])
     [1, 2, 3, 4, 5, 6, 7, 8, 9, 10, 11, 12, 13, 14, 15]"

definition fullState :: dialog_state where
  "fullState =
     \<lparr>userContexts = [ascii ''u'' \<mapsto>
        \<lparr>history = map (\<lambda>c. \<lparr>role = User, content = [c], timestamp = [c]\<rparr>)
                     [1, 2, 3, 4, 5, 6, 7, 8, 9, 10],
         lastInteraction = [10]\<rparr>],
      clockReads = 20\<rparr>"

definition tick :: "nat \<Rightarrow> jsstring" where
  "tick n = [of_nat n]"

section \<open>Lines and paragraphs, to state what the extraction returns\<close>

text \<open>
  \<open>splitLines\<close> cuts a text at every line terminator. A heading line is \<open>#\<close>, a whitespace
  character and at least one more code unit; a bare marker is a line that is \<open>#\<close> followed
  by whitespace only, or by nothing. \<open>upToHeading\<close> gives the lines up to the first heading
  line, that line included. \<open>headingTitle\<close> is the title in the words of the
  specification: the content of the first heading line, trimmed, or the fallback literal.
\<close>

fun splitLines :: "jsstring \<Rightarrow> jsstring list" where
  "splitLines [] = [[]]"
| "splitLines (c # s) =
     (if isLineTerminator c then [] # splitLines s else consFirst c (splitLines s))"

definition isHeadingLine :: "jsstring \<Rightarrow> bool" where
  "isHeadingLine l =
     (case l of c # w # r \<Rightarrow> c = 0x23 \<and> isWhiteSpace w \<and> r \<noteq> [] | _ \<Rightarrow> False)"

definition bareMarker :: "jsstring \<Rightarrow> bool" where
  "bareMarker l = (case l of [] \<Rightarrow> False | c # r \<Rightarrow> c = 0x23 \<and> list_all isWhiteSpace r)"

fun upToHeading :: "jsstring list \<Rightarrow> jsstring list" where
  "upToHeading [] = []"
| "upToHeading (l # ls) = (if isHeadingLine l then [l] else l # upToHeading ls)"

definition headingTitle :: "jsstring \<Rightarrow> jsstring" where
  "headingTitle text =
     (case find isHeadingLine (splitLines text) of
        Some l \<Rightarrow> trim (tl l)
      | None \<Rightarrow> untitledEntry)"

text \<open>
  \<open>claimedDescription\<close> is the description in the words of the specification: the first
  paragraph that is not empty and does not start with \<open>#\<close>, cut to 50 code units and an
  ellipsis when it is longer, or the fallback literal. \<open>paragraphDescription\<close> differs in
  two points: a paragraph of whitespace only is passed over, and the paragraph taken is
  trimmed before it is measured and cut.
\<close>

definition ellipsize :: "jsstring \<Rightarrow> jsstring" where
  "ellipsize d = (if length d > 50 then take 50 d @ ascii ''...'' else d)"

definition claimedDescription :: "jsstring \<Rightarrow> jsstring" where
  "claimedDescription text =
     (case find (\<lambda>p. \<not> startsWith p [0x23] \<and> p \<noteq> []) (splitParagraphs text) of
        Some p \<Rightarrow> ellipsize p
      | None \<Rightarrow> noDescription)"

definition paragraphDescription :: "jsstring \<Rightarrow> jsstring" where
  "paragraphDescription text =
     (case find (\<lambda>p. \<not> startsWith p [0x23] \<and> trim p \<noteq> []) (splitParagraphs text) of
        Some p \<Rightarrow> ellipsize (trim p)
      | None \<Rightarrow> noDescription)"

text \<open>The paragraphs joined again by two line feeds.\<close>

fun joinParagraphs :: "jsstring list \<Rightarrow> jsstring" where
  "joinParagraphs [] = []"
| "joinParagraphs [p] = p"
| "joinParagraphs (p # q # ps) = p @ [0x0A, 0x0A] @ joinParagraphs (q # ps)"

text \<open>
  Texts for concrete inputs: a record with a heading in its second line; a text with a
  paragraph of spaces and a paragraph of 60 letters; a text whose first line is a bare
  marker; a text that ends with a line feed.
\<close>

definition sampleText :: jsstring where
  "sampleText =
     ascii ''Notes'' @ [0x0A] @ ascii ''#  CVVH Setup '' @ [0x0A, 0x0A] @ ascii ''Steps.''"

definition longParagraphText :: jsstring where
  "longParagraphText =
     ascii ''#tag'' @ [0x0A, 0x0A] @ ascii ''   '' @ [0x0A, 0x0A]
       @ ascii '' aaaaaaaaaabbbbbbbbbbccccccccccddddddddddeeeeeeeeeeffffffffff'' @ [0x0A]"

definition bareMarkerText :: jsstring where
  "bareMarkerText = ascii ''#'' @ [0x0A] @ ascii ''foo''"

definition trailingLineFeedText :: jsstring where
  "trailingLineFeedText = ascii ''# T'' @ [0x0A, 0x0A] @ ascii ''Body'' @ [0x0A]"

section \<open>Failure cases of the store, and a sample store\<close>

text \<open>
  The ways in which the fetch of the index, or of the record of an id, fails: the binding
  is not set, \<open>get\<close> rejects, the key is absent or holds the empty string, or the value
  held is not JSON.
\<close>

definition fetchFails ::
  "(jsstring \<Rightarrow> json option) \<Rightarrow> kv_namespace option \<Rightarrow> jsstring \<Rightarrow> bool"
where
  "fetchFails JSON_parse kv key =
     (case kv of
        None \<Rightarrow> True
      | Some ns \<Rightarrow>
          (case kv_get ns key of
             Inl e \<Rightarrow> True
           | Inr None \<Rightarrow> True
           | Inr (Some raw) \<Rightarrow> raw = [] \<or> JSON_parse raw = None))"

definition indexUnavailable :: "(jsstring \<Rightarrow> json option) \<Rightarrow> kv_namespace option \<Rightarrow> bool" where
  "indexUnavailable JSON_parse kv = fetchFails JSON_parse kv (ascii ''keyword-index'')"

definition documentUnavailable ::
  "(jsstring \<Rightarrow> json option) \<Rightarrow> kv_namespace option \<Rightarrow> jsstring \<Rightarrow> bool"
where
  "documentUnavailable JSON_parse kv ident =
     fetchFails JSON_parse kv (ascii ''knowledge:'' @ ident)"

text \<open>
  A store for concrete inputs. The key \<open>keyword-index\<close> holds the text
  \<^verbatim>\<open>{"icu":"Department:icu","ward":"Department:ward","cvvh":"icu-cvvh-setup"}\<close>
  and the key \<open>knowledge:icu-cvvh-setup\<close> holds the text
  \<^verbatim>\<open>{"id":"icu-cvvh-setup","keywords":["cvvh"],"text":"# CVVH Setup\n\nSteps for priming."}\<close>
  \<open>sampleParse\<close> is \<open>JSON.parse\<close> on these two texts.
\<close>

definition sampleIndexJson :: jsstring where
  "sampleIndexJson =
     [0x007B, 0x0022, 0x0069, 0x0063, 0x0075, 0x0022, 0x003A, 0x0022, 0x0044, 0x0065, 0x0070,
      0x0061, 0x0072, 0x0074, 0x006D, 0x0065, 0x006E, 0x0074, 0x003A, 0x0069, 0x0063, 0x0075,
      0x0022, 0x002C, 0x0022, 0x0077, 0x0061, 0x0072, 0x0064, 0x0022, 0x003A, 0x0022, 0x0044,
      0x0065, 0x0070, 0x0061, 0x0072, 0x0074, 0x006D, 0x0065, 0x006E, 0x0074, 0x003A, 0x0077,
      0x0061, 0x0072, 0x0064, 0x0022, 0x002C, 0x0022, 0x0063, 0x0076, 0x0076, 0x0068, 0x0022,
      0x003A, 0x0022, 0x0069, 0x0063, 0x0075, 0x002D, 0x0063, 0x0076, 0x0076, 0x0068, 0x002D,
      0x0073, 0x0065, 0x0074, 0x0075, 0x0070, 0x0022, 0x007D]"

definition sampleDocumentJson :: jsstring where
  "sampleDocumentJson =
     [0x007B, 0x0022, 0x0069, 0x0064, 0x0022, 0x003A, 0x0022, 0x0069, 0x0063, 0x0075, 0x002D,
      0x0063, 0x0076, 0x0076, 0x0068, 0x002D, 0x0073, 0x0065, 0x0074, 0x0075, 0x0070, 0x0022,
      0x002C, 0x0022, 0x006B, 0x0065, 0x0079, 0x0077, 0x006F, 0x0072, 0x0064, 0x0073, 0x0022,
      0x003A, 0x005B, 0x0022, 0x0063, 0x0076, 0x0076, 0x0068, 0x0022, 0x005D, 0x002C, 0x0022,
      0x0074, 0x0065, 0x0078, 0x0074, 0x0022, 0x003A, 0x0022, 0x0023, 0x0020, 0x0043, 0x0056,
      0x0056, 0x0048, 0x0020, 0x0053, 0x0065, 0x0074, 0x0075, 0x0070, 0x005C, 0x006E, 0x005C,
      0x006E, 0x0053, 0x0074, 0x0065, 0x0070, 0x0073, 0x0020, 0x0066, 0x006F, 0x0072, 0x0020,
      0x0070, 0x0072, 0x0069, 0x006D, 0x0069, 0x006E, 0x0067, 0x002E, 0x0022, 0x007D]"

definition sampleIndex :: "(jsstring \<times> jsstring) list" where
  "sampleIndex =
     [(ascii ''icu'', ascii ''Department:icu''), (ascii ''ward'', ascii ''Department:ward''),
      (ascii ''cvvh'', ascii ''icu-cvvh-setup'')]"

definition sampleDocument :: json where
  "sampleDocument =
     JObj [(ascii ''id'', JStr (ascii ''icu-cvvh-setup'')),
           (ascii ''keywords'', JArr [JStr (ascii ''cvvh'')]),
           (ascii ''text'', JStr (ascii ''# CVVH Setup'' @ [0x0A, 0x0A] @ ascii ''Steps for priming.''))]"

definition sampleParse :: "jsstring \<Rightarrow> json option" where
  "sampleParse raw =
     (if raw = sampleIndexJson then Some (keywordIndexOf sampleIndex)
      else if raw = sampleDocumentJson then Some sampleDocument
      else None)"

definition sampleStore :: kv_namespace where
  "sampleStore =
     \<lparr>kv_get = (\<lambda>key.
        if key = ascii ''keyword-index'' then Inr (Some sampleIndexJson)
        else if key = ascii ''knowledge:icu-cvvh-setup'' then Inr (Some sampleDocumentJson)
        else Inr None),
      kv_list = (\<lambda>prefix. Inr [ascii ''knowledge:icu-cvvh-setup''])\<rparr>"

text \<open>
  The same store with a \<open>list\<close> that rejects, with a \<open>get\<close> that rejects, and with a
  \<open>get\<close> that rejects for the key of the one record only; each rejects with a host
  value, given by its number.
\<close>

definition listRejects :: kv_namespace where
  "listRejects = sampleStore\<lparr>kv_list := (\<lambda>prefix. Inl (Rejection 0))\<rparr>"

definition getRejects :: kv_namespace where
  "getRejects = sampleStore\<lparr>kv_get := (\<lambda>key. Inl (Rejection 0))\<rparr>"

definition documentRejects :: "nat \<Rightarrow> kv_namespace" where
  "documentRejects v =
     sampleStore\<lparr>kv_get := (\<lambda>key.
       if key = ascii ''knowledge:icu-cvvh-setup'' then Inl (Rejection v)
       else kv_get sampleStore key)\<rparr>"

text \<open>
  Three behaviours of \<open>JSON.stringify\<close> on the host values. \<open>printsEvery\<close>: it prints each
  of them. \<open>throwsCircular\<close>: the value 2 has a \<open>toJSON\<close> method that throws the value 3,
  an object that holds itself, on which \<open>JSON.stringify\<close> raises \<open>TypeError\<close>.
  \<open>throwsItself\<close>: the value 4 has a \<open>toJSON\<close> method that throws the value 4.
\<close>

definition printsEvery :: "nat \<Rightarrow> error option" where
  "printsEvery v = None"



section \<open>Properties of the keyword index\<close>

lemma startsWith_Nil [simp]: "startsWith s []"
  by (simp add: startsWith_def)

lemma startsWith_iff: "startsWith s p \<longleftrightarrow> (\<exists>r. s = p @ r)"
  unfolding startsWith_def
  by (metis append_eq_conv_conj append_take_drop_id)

lemma includes_str_iff: "includes_str s t \<longleftrightarrow> (\<exists>p r. s = p @ t @ r)"
proof (induction s)
  case Nil
  then show ?case by simp
next
  case (Cons c s)
  show ?case
  proof
    assume "includes_str (c # s) t"
    then consider "startsWith (c # s) t" | "includes_str s t" by auto
    then show "\<exists>p r. c # s = p @ t @ r"
    proof cases
      case 1
      then obtain r where "c # s = t @ r" by (auto simp: startsWith_iff)
      then have "c # s = [] @ t @ r" by simp
      then show ?thesis by blast
    next
      case 2
      then obtain p r where "s = p @ t @ r" using Cons.IH by blast
      then have "c # s = (c # p) @ t @ r" by simp
      then show ?thesis by blast
    qed
  next
    assume "\<exists>p r. c # s = p @ t @ r"
    then obtain p r where pr: "c # s = p @ t @ r" by blast
    show "includes_str (c # s) t"
    proof (cases p)
      case Nil
      then have "c # s = t @ r" using pr by simp
      then have "startsWith (c # s) t" by (metis startsWith_iff)
      then show ?thesis by simp
    next
      case (Cons a p')
      then have "s = p' @ t @ r" using pr by simp
      then show ?thesis using Cons.IH by auto
    qed
  qed
qed

lemma includes_str_refl: "includes_str s s"
  by (metis append_Nil append_Nil2 includes_str_iff)

lemma find_Some_mem: "find P xs = Some x \<Longrightarrow> x \<in> set xs \<and> P x"
  by (induction xs) (auto split: if_splits)

lemma findDepartmentMatch_typed:
  "findDepartmentMatch lc lq (map (\<lambda>(k, v). (k, JStr v)) idx) =
     Inr (find (\<lambda>(k, v). lc k = lq \<and> isDepartmentMarker v) idx)"
proof (induction idx)
  case Nil
  show ?case by simp
next
  case (Cons e idx)
  obtain k v where e: "e = (k, v)" by (cases e)
  show ?case using Cons.IH by (simp add: e isDepartmentMarker_def)
qed

lemma scanKeywords_typed:
  "scanKeywords lc lq (map (\<lambda>(k, v). (k, JStr v)) idx) =
     Inr (map_option snd (find (\<lambda>(k, v). includes_str lq (lc k))
            (filter (\<lambda>(k, v). \<not> isDepartmentMarker v) idx)))"
proof (induction idx)
  case Nil
  show ?case by simp
next
  case (Cons e idx)
  obtain k v where e: "e = (k, v)" by (cases e)
  show ?case using Cons.IH by (simp add: e isDepartmentMarker_def)
qed

lemma findMatchingEntryId_typed:
  "findMatchingEntryId lc q (keywordIndexOf idx) =
     (case find (\<lambda>(k, v). lc k = trim (lc q) \<and> isDepartmentMarker v) idx of
        Some (k, v) \<Rightarrow> Inr (Some v)
      | None \<Rightarrow> Inr (map_option snd (find (\<lambda>(k, v). includes_str (trim (lc q)) (lc k))
            (filter (\<lambda>(k, v). \<not> isDepartmentMarker v) idx))))"
  by (simp add: findMatchingEntryId_def keywordIndexOf_def bindE_def
        findDepartmentMatch_typed scanKeywords_typed split: option.splits)


text \<open>The definitions that evaluate strings at concrete inputs.\<close>

lemmas eval_string_defs =
  ascii_def toLowerCase_ascii_def trim_def isWhiteSpace_def isLineTerminator_def
  startsWith_def isDepartmentMarker_def departmentPrefix_def keywordIndexOf_def

text \<open>
  C1 (as amended). For every keyword index of strings and every query: when the query,
  lowercased and trimmed, equals the lowercased key of some entry whose value is a
  department marker, \<open>findMatchingEntryId\<close> returns the department marker of the first
  such entry in the order of the index, whatever other keywords of the index are
  substrings of the query. It is the marker of the given entry when every entry with
  such a key and a department marker carries the same marker.
\<close>

theorem findMatchingEntryId_department_exact:
  assumes "(k, v) \<in> set idx"
    and "toLowerCase k = trim (toLowerCase query)"
    and "isDepartmentMarker v"
  shows "findMatchingEntryId toLowerCase query (keywordIndexOf idx) =
           Inr (map_option snd
             (find (\<lambda>(k', v'). toLowerCase k' = trim (toLowerCase query) \<and> isDepartmentMarker v') idx))
         \<and> find (\<lambda>(k', v'). toLowerCase k' = trim (toLowerCase query) \<and> isDepartmentMarker v') idx \<noteq> None
         \<and> ((\<forall>k' v'. (k', v') \<in> set idx \<and> toLowerCase k' = trim (toLowerCase query)
                  \<and> isDepartmentMarker v' \<longrightarrow> v' = v)
              \<longrightarrow> findMatchingEntryId toLowerCase query (keywordIndexOf idx) = Inr (Some v))"
proof -
  let ?P = "\<lambda>(k', v'). toLowerCase k' = trim (toLowerCase query) \<and> isDepartmentMarker v'"
  have "?P (k, v)" using assms by simp
  then have "find ?P idx \<noteq> None" using assms(1) by (auto simp: find_None_iff)
  then obtain k' v' where f: "find ?P idx = Some (k', v')" by (cases "find ?P idx") auto
  then have mem: "(k', v') \<in> set idx" and P: "?P (k', v')"
    using find_Some_mem [of ?P idx "(k', v')"] by auto
  have res: "findMatchingEntryId toLowerCase query (keywordIndexOf idx) = Inr (Some v')"
    using f by (simp add: findMatchingEntryId_typed)
  show ?thesis using f res mem P by auto
qed

text \<open>
  The theorem at the index \<open>{"c": "doc-c", "ICU": "Department:icu"}\<close> and the query
  \<open>" icu "\<close>: the keyword \<open>c\<close> is a substring of the query and comes first, and the
  department marker is returned.
\<close>

theorem findMatchingEntryId_department_exact_witness:
  "(ascii ''ICU'', ascii ''Department:icu'')
      \<in> set [(ascii ''c'', ascii ''doc-c''), (ascii ''ICU'', ascii ''Department:icu'')]
   \<and> toLowerCase_ascii (ascii ''ICU'') = trim (toLowerCase_ascii (ascii '' icu ''))
   \<and> isDepartmentMarker (ascii ''Department:icu'')
   \<and> includes_str (trim (toLowerCase_ascii (ascii '' icu ''))) (toLowerCase_ascii (ascii ''c''))
   \<and> findMatchingEntryId toLowerCase_ascii (ascii '' icu '')
        (keywordIndexOf [(ascii ''c'', ascii ''doc-c''), (ascii ''ICU'', ascii ''Department:icu'')])
      = Inr (Some (ascii ''Department:icu''))"
proof -
  let ?idx = "[(ascii ''c'', ascii ''doc-c''), (ascii ''ICU'', ascii ''Department:icu'')]"
  have h1: "(ascii ''ICU'', ascii ''Department:icu'') \<in> set ?idx" by simp
  have h2: "toLowerCase_ascii (ascii ''ICU'') = trim (toLowerCase_ascii (ascii '' icu ''))"
    by (simp add: eval_string_defs)
  have h3: "isDepartmentMarker (ascii ''Department:icu'')"
    by (simp add: eval_string_defs)
  have h4: "\<forall>k' v'. (k', v') \<in> set ?idx \<and> toLowerCase_ascii k' = trim (toLowerCase_ascii (ascii '' icu ''))
              \<and> isDepartmentMarker v' \<longrightarrow> v' = ascii ''Department:icu''"
    by (auto simp: eval_string_defs)
  have h5: "includes_str (trim (toLowerCase_ascii (ascii '' icu ''))) (toLowerCase_ascii (ascii ''c''))"
    by (simp add: eval_string_defs)
  show ?thesis
    using findMatchingEntryId_department_exact [OF h1 h2 h3] h1 h2 h3 h4 h5 by blast
qed

text \<open>
  C1 as it was stated fails where two keys differ in case only: in the index
  \<open>{"ICU": "Department:icu", "icu": "Department:nicu"}\<close> the query \<open>"icu"\<close> equals the
  key \<open>icu\<close>, whose marker is \<open>Department:nicu\<close>, and the function returns
  \<open>Department:icu\<close>, the marker of the first entry.
\<close>

theorem findMatchingEntryId_department_exact_counterexample:
  "(ascii ''icu'', ascii ''Department:nicu'')
      \<in> set [(ascii ''ICU'', ascii ''Department:icu''), (ascii ''icu'', ascii ''Department:nicu'')]
   \<and> toLowerCase_ascii (ascii ''icu'') = trim (toLowerCase_ascii (ascii ''icu''))
   \<and> isDepartmentMarker (ascii ''Department:nicu'')
   \<and> findMatchingEntryId toLowerCase_ascii (ascii ''icu'')
        (keywordIndexOf [(ascii ''ICU'', ascii ''Department:icu''), (ascii ''icu'', ascii ''Department:nicu'')])
      = Inr (Some (ascii ''Department:icu''))
   \<and> ascii ''Department:icu'' \<noteq> ascii ''Department:nicu''"
  by (simp add: eval_string_defs findMatchingEntryId_def bindE_def)

text \<open>
  The scan over the entries in the order in which \<open>Object.entries\<close> yields them.
\<close>

lemma scan_first_entry:
  assumes "\<not> (\<exists>(k, v) \<in> set idx. toLowerCase k = trim (toLowerCase query) \<and> isDepartmentMarker v)"
  shows "findMatchingEntryId toLowerCase query (keywordIndexOf idx) =
            Inr (map_option snd
              (find (\<lambda>(k, v). includes_str (trim (toLowerCase query)) (toLowerCase k))
                 (filter (\<lambda>(k, v). \<not> isDepartmentMarker v) idx)))"
proof -
  have "find (\<lambda>(k, v). toLowerCase k = trim (toLowerCase query) \<and> isDepartmentMarker v) idx = None"
    using assms by (auto simp: find_None_iff)
  then show ?thesis by (simp add: findMatchingEntryId_typed)
qed

lemma scan_some_entry:
  assumes "\<exists>(k, v) \<in> set idx. \<not> isDepartmentMarker v
            \<and> includes_str (trim (toLowerCase query)) (toLowerCase k)"
  shows "\<exists>k' v'. (k', v') \<in> set idx
            \<and> includes_str (trim (toLowerCase query)) (toLowerCase k')
            \<and> findMatchingEntryId toLowerCase query (keywordIndexOf idx) = Inr (Some v')"
proof -
  let ?D = "\<lambda>(k, v). toLowerCase k = trim (toLowerCase query) \<and> isDepartmentMarker v"
  let ?S = "\<lambda>(k, v). includes_str (trim (toLowerCase query)) (toLowerCase k)"
  let ?N = "\<lambda>(k, v). \<not> isDepartmentMarker v"
  obtain k v where kv: "(k, v) \<in> set idx" "\<not> isDepartmentMarker v" "?S (k, v)"
    using assms by auto
  show ?thesis
  proof (cases "find ?D idx")
    case None
    have "(k, v) \<in> set (filter ?N idx)" using kv by simp
    then have "find ?S (filter ?N idx) \<noteq> None" using kv(3) by (auto simp: find_None_iff)
    then obtain k' v' where f: "find ?S (filter ?N idx) = Some (k', v')"
      by (cases "find ?S (filter ?N idx)") auto
    then have "(k', v') \<in> set (filter ?N idx)" and "?S (k', v')"
      using find_Some_mem [of ?S "filter ?N idx" "(k', v')"] by auto
    then show ?thesis using None f by (auto simp: findMatchingEntryId_typed)
  next
    case (Some e)
    obtain k' v' where e: "e = (k', v')" by (cases e)
    have "(k', v') \<in> set idx" and "?D (k', v')"
      using Some e find_Some_mem [of ?D idx "(k', v')"] by auto
    then show ?thesis using Some e by (auto simp: findMatchingEntryId_typed includes_str_refl)
  qed
qed

lemma set_enumerationOrder: "set (enumerationOrder ps) = set ps"
  by (auto simp: enumerationOrder_def)

lemma enumerationOrder_plain:
  assumes "\<forall>(k, v) \<in> set ps. arrayIndex k = None"
  shows "enumerationOrder ps = ps"
proof -
  have n: "\<forall>p \<in> set ps. arrayIndex (fst p) = None" using assms by auto
  then have "filter (\<lambda>p. arrayIndex (fst p) \<noteq> None) ps = []" by (simp add: filter_empty_conv)
  moreover have "filter (\<lambda>p. arrayIndex (fst p) = None) ps = ps" using n by (simp add: filter_id_conv)
  ultimately show ?thesis by (simp add: enumerationOrder_def)
qed

lemmas eval_order_defs =
  enumerationOrder_def indexOf_def arrayIndex_def digitsValue_def isDigit_def
  scanInInsertionOrder_def

text \<open>
  C3 (as amended). The index is the object whose properties, in the order of their
  creation, are \<open>properties\<close>. When no property with a department marker has a lowercased
  key equal to the normalized query, \<open>findMatchingEntryId\<close> returns the value of the first
  entry, among those without a department marker and in the order in which
  \<open>Object.entries\<close> yields the entries (first the array-index keys by ascending index, then
  the other keys in insertion order), whose lowercased keyword is a substring of the
  normalized query, and \<open>null\<close> when there is none; only "the query contains the keyword"
  is tested. When no key of the index is an array index, that order is the insertion
  order. Hence whenever some keyword without a department marker is a substring of the
  normalized query, the result is the value of an entry whose lowercased keyword is a
  substring of the normalized query.
\<close>

theorem findMatchingEntryId_keyword_scan:
  "(\<not> (\<exists>(k, v) \<in> set properties. toLowerCase k = trim (toLowerCase query) \<and> isDepartmentMarker v)
      \<longrightarrow> findMatchingEntryId toLowerCase query (keywordIndexOf (enumerationOrder properties)) =
            Inr (map_option snd
              (find (\<lambda>(k, v). includes_str (trim (toLowerCase query)) (toLowerCase k))
                 (filter (\<lambda>(k, v). \<not> isDepartmentMarker v) (enumerationOrder properties)))))
   \<and> (\<not> (\<exists>(k, v) \<in> set properties. toLowerCase k = trim (toLowerCase query) \<and> isDepartmentMarker v)
       \<and> (\<forall>(k, v) \<in> set properties. arrayIndex k = None)
      \<longrightarrow> findMatchingEntryId toLowerCase query (keywordIndexOf (enumerationOrder properties)) =
            Inr (scanInInsertionOrder toLowerCase query properties))
   \<and> ((\<exists>(k, v) \<in> set properties. \<not> isDepartmentMarker v
            \<and> includes_str (trim (toLowerCase query)) (toLowerCase k))
      \<longrightarrow> (\<exists>k' v'. (k', v') \<in> set properties
            \<and> includes_str (trim (toLowerCase query)) (toLowerCase k')
            \<and> findMatchingEntryId toLowerCase query (keywordIndexOf (enumerationOrder properties))
                = Inr (Some v')))"
proof (intro conjI impI)
  assume "\<not> (\<exists>(k, v) \<in> set properties. toLowerCase k = trim (toLowerCase query) \<and> isDepartmentMarker v)"
  then show "findMatchingEntryId toLowerCase query (keywordIndexOf (enumerationOrder properties)) =
            Inr (map_option snd
              (find (\<lambda>(k, v). includes_str (trim (toLowerCase query)) (toLowerCase k))
                 (filter (\<lambda>(k, v). \<not> isDepartmentMarker v) (enumerationOrder properties))))"
    using scan_first_entry [of "enumerationOrder properties" toLowerCase query]
    by (simp add: set_enumerationOrder)
next
  assume a: "\<not> (\<exists>(k, v) \<in> set properties. toLowerCase k = trim (toLowerCase query) \<and> isDepartmentMarker v)
       \<and> (\<forall>(k, v) \<in> set properties. arrayIndex k = None)"
  then have "enumerationOrder properties = properties" by (simp add: enumerationOrder_plain)
  then show "findMatchingEntryId toLowerCase query (keywordIndexOf (enumerationOrder properties)) =
            Inr (scanInInsertionOrder toLowerCase query properties)"
    using a scan_first_entry [of properties toLowerCase query]
    by (simp add: scanInInsertionOrder_def)
next
  assume "\<exists>(k, v) \<in> set properties. \<not> isDepartmentMarker v
            \<and> includes_str (trim (toLowerCase query)) (toLowerCase k)"
  then show "\<exists>k' v'. (k', v') \<in> set properties
            \<and> includes_str (trim (toLowerCase query)) (toLowerCase k')
            \<and> findMatchingEntryId toLowerCase query (keywordIndexOf (enumerationOrder properties))
                = Inr (Some v')"
    using scan_some_entry [of "enumerationOrder properties" toLowerCase query]
    by (simp add: set_enumerationOrder)
qed

text \<open>
  The theorem at two indexes. In \<open>{"set": "doc-set", "icu": "Department:icu", "10": "doc-ten",
  "2": "doc-two"}\<close> the keys \<open>2\<close> and \<open>10\<close> are array indices and come first, in this order:
  the query \<open>"bed 10 set 2"\<close> contains three keywords and gets the value of \<open>2\<close>. In
  \<open>{"icu": "Department:icu", "set": "doc-set", "cvvh": "icu-cvvh-setup"}\<close> no key is an array
  index: the query \<open>"how do I set up CVVH"\<close> contains two keywords and gets the first in
  insertion order, the query \<open>"xyz"\<close> contains none and gets \<open>null\<close>.
\<close>

theorem findMatchingEntryId_keyword_scan_witness:
  "enumerationOrder
     [(ascii ''set'', ascii ''doc-set''), (ascii ''icu'', ascii ''Department:icu''),
      (ascii ''10'', ascii ''doc-ten''), (ascii ''2'', ascii ''doc-two'')]
     = [(ascii ''2'', ascii ''doc-two''), (ascii ''10'', ascii ''doc-ten''),
        (ascii ''set'', ascii ''doc-set''), (ascii ''icu'', ascii ''Department:icu'')]
   \<and> findMatchingEntryId toLowerCase_ascii (ascii ''bed 10 set 2'')
     (keywordIndexOf (enumerationOrder
        [(ascii ''set'', ascii ''doc-set''), (ascii ''icu'', ascii ''Department:icu''),
         (ascii ''10'', ascii ''doc-ten''), (ascii ''2'', ascii ''doc-two'')]))
     = Inr (Some (ascii ''doc-two''))
   \<and> findMatchingEntryId toLowerCase_ascii (ascii ''how do I set up CVVH'')
     (keywordIndexOf (enumerationOrder
        [(ascii ''icu'', ascii ''Department:icu''), (ascii ''set'', ascii ''doc-set''),
         (ascii ''cvvh'', ascii ''icu-cvvh-setup'')]))
     = Inr (Some (ascii ''doc-set''))
   \<and> findMatchingEntryId toLowerCase_ascii (ascii ''xyz'')
     (keywordIndexOf (enumerationOrder
        [(ascii ''icu'', ascii ''Department:icu''), (ascii ''set'', ascii ''doc-set''),
         (ascii ''cvvh'', ascii ''icu-cvvh-setup'')]))
     = Inr None"
proof -
  let ?a = "[(ascii ''set'', ascii ''doc-set''), (ascii ''icu'', ascii ''Department:icu''),
             (ascii ''10'', ascii ''doc-ten''), (ascii ''2'', ascii ''doc-two'')]"
  let ?b = "[(ascii ''icu'', ascii ''Department:icu''), (ascii ''set'', ascii ''doc-set''),
             (ascii ''cvvh'', ascii ''icu-cvvh-setup'')]"
  have o: "enumerationOrder ?a
     = [(ascii ''2'', ascii ''doc-two''), (ascii ''10'', ascii ''doc-ten''),
        (ascii ''set'', ascii ''doc-set''), (ascii ''icu'', ascii ''Department:icu'')]"
    by (simp add: eval_order_defs ascii_def)
  have n0: "\<not> (\<exists>(k, v) \<in> set ?a. toLowerCase_ascii k = trim (toLowerCase_ascii (ascii ''bed 10 set 2''))
              \<and> isDepartmentMarker v)"
    by (simp add: eval_string_defs)
  have p: "\<forall>(k, v) \<in> set ?b. arrayIndex k = None"
    by (simp add: eval_order_defs ascii_def)
  have n1: "\<not> (\<exists>(k, v) \<in> set ?b. toLowerCase_ascii k = trim (toLowerCase_ascii (ascii ''how do I set up CVVH''))
              \<and> isDepartmentMarker v)"
    by (simp add: eval_string_defs)
  have n2: "\<not> (\<exists>(k, v) \<in> set ?b. toLowerCase_ascii k = trim (toLowerCase_ascii (ascii ''xyz''))
              \<and> isDepartmentMarker v)"
    by (simp add: eval_string_defs)
  have r0: "map_option snd
              (find (\<lambda>(k, v). includes_str (trim (toLowerCase_ascii (ascii ''bed 10 set 2''))) (toLowerCase_ascii k))
                 (filter (\<lambda>(k, v). \<not> isDepartmentMarker v)
                    [(ascii ''2'', ascii ''doc-two''), (ascii ''10'', ascii ''doc-ten''),
                     (ascii ''set'', ascii ''doc-set''), (ascii ''icu'', ascii ''Department:icu'')]))
            = Some (ascii ''doc-two'')"
    by (simp add: eval_string_defs)
  have r1: "scanInInsertionOrder toLowerCase_ascii (ascii ''how do I set up CVVH'') ?b
            = Some (ascii ''doc-set'')"
    by (simp add: scanInInsertionOrder_def eval_string_defs)
  have r2: "scanInInsertionOrder toLowerCase_ascii (ascii ''xyz'') ?b = None"
    by (simp add: scanInInsertionOrder_def eval_string_defs)
  have t0: "findMatchingEntryId toLowerCase_ascii (ascii ''bed 10 set 2'')
              (keywordIndexOf (enumerationOrder ?a)) = Inr (Some (ascii ''doc-two''))"
    using findMatchingEntryId_keyword_scan [of ?a toLowerCase_ascii "ascii ''bed 10 set 2''"] n0
    unfolding o r0 by blast
  have t1: "findMatchingEntryId toLowerCase_ascii (ascii ''how do I set up CVVH'')
              (keywordIndexOf (enumerationOrder ?b)) = Inr (Some (ascii ''doc-set''))"
    using findMatchingEntryId_keyword_scan [of ?b toLowerCase_ascii "ascii ''how do I set up CVVH''"]
      n1 p
    unfolding r1 by blast
  have t2: "findMatchingEntryId toLowerCase_ascii (ascii ''xyz'')
              (keywordIndexOf (enumerationOrder ?b)) = Inr None"
    using findMatchingEntryId_keyword_scan [of ?b toLowerCase_ascii "ascii ''xyz''"] n2 p
    unfolding r2 by blast
  show ?thesis using o t0 t1 t2 by blast
qed

text \<open>
  C3 as it was stated fails where a key of the index is an array index: in the index
  \<open>{"b": "doc-b", "1": "doc-1"}\<close> the key \<open>b\<close> is the first in insertion order, the query
  \<open>"b1"\<close> contains both keys, and the function returns \<open>doc-1\<close>, the value of the key that
  \<open>Object.entries\<close> yields first.
\<close>

theorem findMatchingEntryId_keyword_scan_counterexample:
  "findMatchingEntryId toLowerCase_ascii (ascii ''b1'')
     (keywordIndexOf (enumerationOrder [(ascii ''b'', ascii ''doc-b''), (ascii ''1'', ascii ''doc-1'')]))
     = Inr (Some (ascii ''doc-1''))
   \<and> scanInInsertionOrder toLowerCase_ascii (ascii ''b1'')
        [(ascii ''b'', ascii ''doc-b''), (ascii ''1'', ascii ''doc-1'')]
     = Some (ascii ''doc-b'')
   \<and> ascii ''doc-1'' \<noteq> ascii ''doc-b''"
  by (simp add: eval_order_defs eval_string_defs findMatchingEntryId_def bindE_def)

section \<open>Properties of the knowledge service\<close>

text \<open>
  A catch block returns its fallback when \<open>JSON.stringify\<close> prints the value caught. The
  error objects of the engine are printed whatever the host values do.
\<close>

lemma loggerError_prints: "\<forall>v. sr v = None \<Longrightarrow> loggerError sr e = Inr ()"
  by (cases e) (simp_all add: loggerError_def)

lemma loggerError_engine [simp]:
  "loggerError sr TypeError = Inr ()" "loggerError sr SyntaxError = Inr ()"
  by (simp_all add: loggerError_def)

lemma tryCatch_logged:
  assumes "\<forall>v. sr v = None"
  shows "\<exists>r. tryCatch m (\<lambda>e. bindE (loggerError sr e) (\<lambda>logged. Inr x)) = Inr r"
  using assms by (cases m) (simp_all add: tryCatch_def bindE_def loggerError_prints)

lemma getKeywordIndex_total: "\<forall>v. sr v = None \<Longrightarrow> \<exists>r. getKeywordIndex p sr kv = Inr r"
  unfolding getKeywordIndex_def by (rule tryCatch_logged)

lemma getKnowledgeById_total: "\<forall>v. sr v = None \<Longrightarrow> \<exists>r. getKnowledgeById p sr kv i = Inr r"
  unfolding getKnowledgeById_def by (rule tryCatch_logged)

lemma getAllKnowledgeIds_total: "\<forall>v. sr v = None \<Longrightarrow> \<exists>r. getAllKnowledgeIds sr kv = Inr r"
  unfolding getAllKnowledgeIds_def by (rule tryCatch_logged)

lemma getDepartmentEntries_total:
  "\<forall>v. sr v = None \<Longrightarrow> \<exists>r. getDepartmentEntries lc p sr sf kv d = Inr r"
  unfolding getDepartmentEntries_def by (rule tryCatch_logged)

lemma getResponse_total: "\<forall>v. sr v = None \<Longrightarrow> \<exists>r. getResponse lc p sr sf kv q = Inr r"
  unfolding getResponse_def by (rule tryCatch_logged)

lemma remove_first_prefix: "startsWith s p \<Longrightarrow> remove_first p s = drop (length p) s"
  by (cases s) (auto simp: startsWith_def)

lemma fetch_fails_index:
  "indexUnavailable p kv \<Longrightarrow> \<forall>v. sr v = None \<Longrightarrow> getKeywordIndex p sr kv = Inr JNull"
  by (auto simp: indexUnavailable_def fetchFails_def getKeywordIndex_def tryCatch_def bindE_def
      parseOrThrow_def loggerError_prints split: option.splits sum.splits)

lemma fetch_fails_document:
  "documentUnavailable p kv i \<Longrightarrow> \<forall>v. sr v = None \<Longrightarrow> getKnowledgeById p sr kv i = Inr JNull"
  by (auto simp: documentUnavailable_def fetchFails_def getKnowledgeById_def tryCatch_def bindE_def
      parseOrThrow_def loggerError_prints split: option.splits sum.splits)

lemma getResponse_department:
  assumes "getKeywordIndex p sr kv = Inr idx" "truthy idx"
    "findMatchingEntryId lc q idx = Inr (Some marker)" "isDepartmentMarker marker"
    "getDepartmentEntries lc p sr sf kv (drop (length departmentPrefix) marker) = Inr es"
  shows "getResponse lc p sr sf kv q = Inr (DepartmentListing (drop (length departmentPrefix) marker) es)"
proof -
  have ne: "marker \<noteq> []" using assms(4)
    by (auto simp: isDepartmentMarker_def startsWith_def departmentPrefix_def ascii_def)
  have rf: "remove_first departmentPrefix marker = drop (length departmentPrefix) marker"
    using assms(4) by (simp add: isDepartmentMarker_def remove_first_prefix)
  show ?thesis
    using assms ne rf
    by (cases es) (simp_all add: getResponse_def bindE_def tryCatch_def isDepartmentMarker_def)
qed

text \<open>
  When \<open>JSON.stringify\<close> prints every host value, a query that resolves to a department
  marker gets a listing, with no entries when no stored id begins with the department
  code and a hyphen.
\<close>

lemma getDepartmentEntries_none:
  assumes "getAllKnowledgeIds sr kv = Inr ids"
    "filter (\<lambda>ident. startsWith ident (lc (trim d) @ ascii ''-'')) ids = []"
  shows "getDepartmentEntries lc p sr sf kv d = Inr []"
  using assms by (simp add: getDepartmentEntries_def bindE_def tryCatch_def)

lemma getResponse_listing_logged:
  assumes "\<forall>v. sr v = None"
    and "getKeywordIndex p sr kv = Inr idx" "truthy idx"
    and "findMatchingEntryId lc q idx = Inr (Some marker)" "isDepartmentMarker marker"
  shows "\<exists>es. getResponse lc p sr sf kv q
            = Inr (DepartmentListing (drop (length departmentPrefix) marker) es)"
proof -
  obtain es where "getDepartmentEntries lc p sr sf kv (drop (length departmentPrefix) marker) = Inr es"
    using getDepartmentEntries_total [OF assms(1)] by blast
  then show ?thesis using getResponse_department [OF assms(2-5)] by blast
qed

text \<open>The definitions that evaluate the service on the sample store.\<close>

lemmas eval_store_defs =
  sampleStore_def sampleParse_def sampleIndexJson_def sampleDocumentJson_def sampleIndex_def
  sampleDocument_def listRejects_def getRejects_def documentRejects_def

lemmas eval_service_defs =
  getResponse_def getKeywordIndex_def getKnowledgeById_def getAllKnowledgeIds_def
  getDepartmentEntries_def findMatchingEntryId_def summarize_def asText_def parseOrThrow_def
  promiseAll_def loggerError_def bindE_def tryCatch_def

lemma sample_index:
  "getKeywordIndex sampleParse sr (Some sampleStore) = Inr (keywordIndexOf sampleIndex)"
  by (simp add: eval_service_defs eval_store_defs ascii_def)

lemma sample_ids: "getAllKnowledgeIds sr (Some sampleStore) = Inr [ascii ''icu-cvvh-setup'']"
  by (simp add: eval_service_defs eval_store_defs ascii_def startsWith_def)




text \<open>
  C4 (as amended). When \<open>JSON.stringify\<close> prints every value of the host, so that no
  value that the store rejects with makes a catch block raise, \<open>getResponse\<close> never raises, whatever the store and \<open>JSON.parse\<close> do. It returns \<open>null\<close>
  when the index cannot be fetched (no binding, \<open>get\<close> rejects, the key is absent, the
  text does not parse), when the index is a falsy value, when the query resolves to
  nothing or the resolution raises, and when the query resolves to a document id whose
  record cannot be fetched in one of the same ways or is a falsy value. When the query
  resolves to a department marker, the result is a department listing, also when the
  store fails while the listing is put together.
\<close>

theorem getResponse_never_raises:
  assumes "\<forall>v. stringifyRaises v = None"
  shows "(\<exists>r. getResponse toLowerCase JSON_parse stringifyRaises settlesFirst kv query = Inr r)
   \<and> (indexUnavailable JSON_parse kv
        \<longrightarrow> getResponse toLowerCase JSON_parse stringifyRaises settlesFirst kv query = Inr Null)
   \<and> (\<forall>keywordIndex. getKeywordIndex JSON_parse stringifyRaises kv = Inr keywordIndex
          \<and> (\<not> truthy keywordIndex
             \<or> findMatchingEntryId toLowerCase query keywordIndex = Inr None
             \<or> (\<exists>e. findMatchingEntryId toLowerCase query keywordIndex = Inl e))
        \<longrightarrow> getResponse toLowerCase JSON_parse stringifyRaises settlesFirst kv query = Inr Null)
   \<and> (\<forall>keywordIndex ident. getKeywordIndex JSON_parse stringifyRaises kv = Inr keywordIndex
          \<and> findMatchingEntryId toLowerCase query keywordIndex = Inr (Some ident)
          \<and> \<not> isDepartmentMarker ident
          \<and> (documentUnavailable JSON_parse kv ident
             \<or> (\<exists>entry. getKnowledgeById JSON_parse stringifyRaises kv ident = Inr entry
                  \<and> \<not> truthy entry))
        \<longrightarrow> getResponse toLowerCase JSON_parse stringifyRaises settlesFirst kv query = Inr Null)
   \<and> (\<forall>keywordIndex marker. getKeywordIndex JSON_parse stringifyRaises kv = Inr keywordIndex
          \<and> truthy keywordIndex
          \<and> findMatchingEntryId toLowerCase query keywordIndex = Inr (Some marker)
          \<and> isDepartmentMarker marker
        \<longrightarrow> (\<exists>entries. getResponse toLowerCase JSON_parse stringifyRaises settlesFirst kv query
                = Inr (DepartmentListing (drop (length departmentPrefix) marker) entries)))"
proof (intro conjI allI impI)
  show "\<exists>r. getResponse toLowerCase JSON_parse stringifyRaises settlesFirst kv query = Inr r"
    using assms by (rule getResponse_total)
next
  assume "indexUnavailable JSON_parse kv"
  then have "getKeywordIndex JSON_parse stringifyRaises kv = Inr JNull"
    using assms by (rule fetch_fails_index)
  then show "getResponse toLowerCase JSON_parse stringifyRaises settlesFirst kv query = Inr Null"
    by (simp add: getResponse_def bindE_def tryCatch_def)
next
  fix keywordIndex
  assume "getKeywordIndex JSON_parse stringifyRaises kv = Inr keywordIndex
          \<and> (\<not> truthy keywordIndex
             \<or> findMatchingEntryId toLowerCase query keywordIndex = Inr None
             \<or> (\<exists>e. findMatchingEntryId toLowerCase query keywordIndex = Inl e))"
  then show "getResponse toLowerCase JSON_parse stringifyRaises settlesFirst kv query = Inr Null"
    using assms by (auto simp: getResponse_def bindE_def tryCatch_def loggerError_prints)
next
  fix keywordIndex ident
  assume a: "getKeywordIndex JSON_parse stringifyRaises kv = Inr keywordIndex
          \<and> findMatchingEntryId toLowerCase query keywordIndex = Inr (Some ident)
          \<and> \<not> isDepartmentMarker ident
          \<and> (documentUnavailable JSON_parse kv ident
             \<or> (\<exists>entry. getKnowledgeById JSON_parse stringifyRaises kv ident = Inr entry
                  \<and> \<not> truthy entry))"
  then obtain entry
    where "getKnowledgeById JSON_parse stringifyRaises kv ident = Inr entry" "\<not> truthy entry"
    using fetch_fails_document [of JSON_parse kv ident stringifyRaises] assms truthy.simps(1)
    by blast
  then show "getResponse toLowerCase JSON_parse stringifyRaises settlesFirst kv query = Inr Null"
    using a by (simp add: getResponse_def bindE_def tryCatch_def isDepartmentMarker_def)
next
  fix keywordIndex marker
  assume a: "getKeywordIndex JSON_parse stringifyRaises kv = Inr keywordIndex
          \<and> truthy keywordIndex
          \<and> findMatchingEntryId toLowerCase query keywordIndex = Inr (Some marker)
          \<and> isDepartmentMarker marker"
  then show "\<exists>entries. getResponse toLowerCase JSON_parse stringifyRaises settlesFirst kv query
                = Inr (DepartmentListing (drop (length departmentPrefix) marker) entries)"
    using getResponse_listing_logged [of stringifyRaises JSON_parse kv keywordIndex toLowerCase
        query marker settlesFirst] assms
    by blast
qed

text \<open>
  The theorem with a \<open>JSON.stringify\<close> that prints every host value, at five inputs: no
  binding; a \<open>get\<close> that rejects; a query that contains no keyword; an index
  \<open>{"icu": 5}\<close>, on whose value \<open>startsWith\<close> raises; the query \<open>"cvvh"\<close> when the text of
  its record does not parse.
\<close>

theorem getResponse_never_raises_witness:
  "(\<forall>v. printsEvery v = None)
   \<and> getResponse toLowerCase_ascii sampleParse printsEvery hd None (ascii ''icu'') = Inr Null
   \<and> getResponse toLowerCase_ascii sampleParse printsEvery hd (Some getRejects) (ascii ''icu'')
       = Inr Null
   \<and> getResponse toLowerCase_ascii sampleParse printsEvery hd (Some sampleStore) (ascii ''xyz'')
       = Inr Null
   \<and> findMatchingEntryId toLowerCase_ascii (ascii ''icu'') (JObj [(ascii ''icu'', JNum (Finite 5))])
       = Inl TypeError
   \<and> getResponse toLowerCase_ascii (\<lambda>raw. Some (JObj [(ascii ''icu'', JNum (Finite 5))]))
        printsEvery hd (Some sampleStore) (ascii ''icu'') = Inr Null
   \<and> getResponse toLowerCase_ascii (\<lambda>raw. if raw = sampleIndexJson then sampleParse raw else None)
        printsEvery hd (Some sampleStore) (ascii ''cvvh'') = Inr Null"
proof -
  let ?noDoc = "\<lambda>raw. if raw = sampleIndexJson then sampleParse raw else None"
  let ?five = "JObj [(ascii ''icu'', JNum (Finite 5))]"
  have p: "\<forall>v. printsEvery v = None" by (simp add: printsEvery_def)
  have u1: "indexUnavailable sampleParse None"
    by (simp add: indexUnavailable_def fetchFails_def)
  have u2: "indexUnavailable sampleParse (Some getRejects)"
    by (simp add: indexUnavailable_def fetchFails_def getRejects_def)
  have f3: "findMatchingEntryId toLowerCase_ascii (ascii ''xyz'') (keywordIndexOf sampleIndex)
              = Inr None"
    by (simp add: findMatchingEntryId_def bindE_def sampleIndex_def eval_string_defs)
  have i4: "getKeywordIndex ?noDoc printsEvery (Some sampleStore) = Inr (keywordIndexOf sampleIndex)"
    by (simp add: eval_service_defs eval_store_defs ascii_def)
  have f4: "findMatchingEntryId toLowerCase_ascii (ascii ''cvvh'') (keywordIndexOf sampleIndex)
              = Inr (Some (ascii ''icu-cvvh-setup''))"
    by (simp add: findMatchingEntryId_def bindE_def sampleIndex_def eval_string_defs)
  have n4: "\<not> isDepartmentMarker (ascii ''icu-cvvh-setup'')" by (simp add: eval_string_defs)
  have u4: "documentUnavailable ?noDoc (Some sampleStore) (ascii ''icu-cvvh-setup'')"
    by (simp add: documentUnavailable_def fetchFails_def eval_store_defs ascii_def)
  have i5: "getKeywordIndex (\<lambda>raw. Some ?five) printsEvery (Some sampleStore) = Inr ?five"
    by (simp add: eval_service_defs eval_store_defs ascii_def)
  have f5: "findMatchingEntryId toLowerCase_ascii (ascii ''icu'') ?five = Inl TypeError"
    by (simp add: findMatchingEntryId_def bindE_def eval_string_defs)
  show ?thesis
    using getResponse_never_raises [OF p, of toLowerCase_ascii sampleParse hd None "ascii ''icu''"]
      getResponse_never_raises [OF p, of toLowerCase_ascii sampleParse hd "Some getRejects"
        "ascii ''icu''"]
      getResponse_never_raises [OF p, of toLowerCase_ascii sampleParse hd "Some sampleStore"
        "ascii ''xyz''"]
      getResponse_never_raises [OF p, of toLowerCase_ascii ?noDoc hd "Some sampleStore"
        "ascii ''cvvh''"]
      getResponse_never_raises [OF p, of toLowerCase_ascii "\<lambda>raw. Some ?five" hd
        "Some sampleStore" "ascii ''icu''"]
      p u1 u2 sample_index [of printsEvery] f3 i4 f4 n4 u4 i5 f5
    by blast
qed

text \<open>
  C4 as it was stated fails for a storage exception in the department path: with a
  \<open>list\<close> that rejects with a value that \<open>JSON.stringify\<close> prints, the query \<open>"icu"\<close> gets
  the listing of \<open>icu\<close> with no entries, not \<open>null\<close>.
\<close>

theorem getResponse_never_raises_counterexample:
  "kv_list listRejects (ascii ''knowledge:'') = Inl (Rejection 0)
   \<and> printsEvery 0 = None
   \<and> getResponse toLowerCase_ascii sampleParse printsEvery hd (Some listRejects) (ascii ''icu'')
       = Inr (DepartmentListing (ascii ''icu'') [])
   \<and> getResponse toLowerCase_ascii sampleParse printsEvery hd (Some listRejects) (ascii ''icu'')
       \<noteq> Inr Null"
  by (simp add: eval_service_defs eval_store_defs eval_string_defs printsEvery_def)

section \<open>Properties of the dialog service\<close>

lemma getUserContext_eq:
  "getUserContext clock u s =
     (\<lparr>history = historyOf s u, lastInteraction = clock (touchTime s u)\<rparr>,
      \<lparr>userContexts = (userContexts s)(u \<mapsto> \<lparr>history = historyOf s u, lastInteraction = clock (touchTime s u)\<rparr>),
       clockReads = Suc (touchTime s u)\<rparr>)"
proof (cases "userContexts s u")
  case None
  then show ?thesis
    by (cases s) (simp add: getUserContext_def now_def historyOf_def touchTime_def Let_def)
next
  case (Some existing)
  then show ?thesis
    by (cases s, cases existing)
       (simp add: getUserContext_def now_def historyOf_def touchTime_def Let_def)
qed

lemma pushEntry_eq:
  "pushEntry clock u r text s =
     \<lparr>userContexts = (userContexts s)(u \<mapsto>
        \<lparr>history = limitHistory (historyOf s u @
            [\<lparr>role = r, content = text, timestamp = clock (Suc (touchTime s u))\<rparr>]),
         lastInteraction = clock (touchTime s u)\<rparr>),
      clockReads = Suc (Suc (touchTime s u))\<rparr>"
  by (simp add: pushEntry_def getUserContext_eq now_def)

lemma historyOf_pushEntry:
  "historyOf (pushEntry clock u r text s) v =
     (if v = u then limitHistory (historyOf s u @
            [\<lparr>role = r, content = text, timestamp = clock (Suc (touchTime s u))\<rparr>])
      else historyOf s v)"
  by (simp add: pushEntry_eq historyOf_def)

lemma limitHistory_newest:
  "length h \<le> MAX_DIALOG_HISTORY \<Longrightarrow> limitHistory (h @ [e]) = newest MAX_DIALOG_HISTORY (h @ [e])"
proof (cases "length h = MAX_DIALOG_HISTORY")
  case True
  then have "length (h @ [e]) - MAX_DIALOG_HISTORY = Suc 0" by simp
  then have "newest MAX_DIALOG_HISTORY (h @ [e]) = drop (Suc 0) (h @ [e])"
    unfolding newest_def by (simp only:)
  also have "\<dots> = tl (h @ [e])" by (simp only: drop_Suc drop_0)
  finally show ?thesis using True by (simp add: limitHistory_def)
next
  case False
  assume "length h \<le> MAX_DIALOG_HISTORY"
  with False have "length h < MAX_DIALOG_HISTORY" by simp
  then show ?thesis by (simp add: limitHistory_def newest_def)
qed

lemma length_limitHistory:
  "length h \<le> MAX_DIALOG_HISTORY \<Longrightarrow> length (limitHistory (h @ [e])) \<le> MAX_DIALOG_HISTORY"
  by (auto simp: limitHistory_def)

lemma newest_snoc: "0 < n \<Longrightarrow> newest n (newest n xs @ [x]) = newest n (xs @ [x])"
proof (cases "n \<le> length xs")
  case True
  assume "0 < n"
  with True show ?thesis by (simp add: newest_def Suc_diff_le)
next
  case False
  then show ?thesis by (simp add: newest_def)
qed

lemma newest_append:
  "0 < n \<Longrightarrow> newest n (newest n xs @ ys) = newest n (xs @ ys)"
proof (induction ys arbitrary: xs)
  case Nil
  then show ?case by (simp add: newest_def)
next
  case (Cons y ys)
  have "newest n (newest n xs @ y # ys) = newest n ((newest n xs @ [y]) @ ys)" by simp
  also have "\<dots> = newest n (newest n (newest n xs @ [y]) @ ys)"
    using Cons.IH [OF Cons.prems, of "newest n xs @ [y]"] by simp
  also have "\<dots> = newest n (newest n (xs @ [y]) @ ys)"
    by (simp only: newest_snoc [OF Cons.prems])
  also have "\<dots> = newest n ((xs @ [y]) @ ys)"
    using Cons.IH [OF Cons.prems, of "xs @ [y]"] by simp
  finally show ?case by simp
qed

lemma map_newest: "map f (newest n xs) = newest n (map f xs)"
  by (simp add: newest_def drop_map)

lemma applyOp_append:
  "isAppend op \<Longrightarrow> applyOp js clock op s =
     pushEntry clock (opUser op) (fst (appended js op)) (snd (appended js op)) s"
  by (cases op)
     (auto simp: recordUserMessage_def recordUserImage_def recordUserVideo_def
        recordBotMessage_def split: bot_message.splits)

lemma historyOf_get:
  "historyOf (snd (getDialogHistory clock u s)) v = historyOf s v"
  by (simp add: getDialogHistory_def getUserContext_eq historyOf_def)

lemma historyOf_clear:
  "historyOf (clearUserContext u s) v = (if v = u then [] else historyOf s v)"
  by (simp add: clearUserContext_def historyOf_def)

lemma bounded_applyOp: "bounded s \<Longrightarrow> bounded (applyOp js clock op s)"
proof (cases "isAppend op")
  case True
  assume b: "bounded s"
  show ?thesis
    unfolding bounded_def applyOp_append [OF True] historyOf_pushEntry
    using b length_limitHistory by (auto simp: bounded_def)
next
  case False
  assume b: "bounded s"
  from False show ?thesis
    using b by (cases op) (auto simp: bounded_def historyOf_get historyOf_clear)
qed

lemma bounded_runOps: "bounded s \<Longrightarrow> bounded (runOps js clock ops s)"
  by (induction ops arbitrary: s) (simp_all add: bounded_applyOp)

lemma bounded_initial: "bounded initialState"
  by (simp add: bounded_def historyOf_def initialState_def)

lemma fifo_runOps:
  assumes "list_all isAppend ops" and "bounded s"
  shows "map entryOf (historyOf (runOps js clock ops s) u) =
           newest MAX_DIALOG_HISTORY
             (map entryOf (historyOf s u) @ map (appended js) (filter (\<lambda>op. opUser op = u) ops))"
  using assms
proof (induction ops arbitrary: s)
  case Nil
  then show ?case by (simp add: newest_def bounded_def)
next
  case (Cons op ops)
  have app: "isAppend op" and rest: "list_all isAppend ops" using Cons.prems(1) by simp_all
  let ?s' = "applyOp js clock op s"
  have b': "bounded ?s'" using Cons.prems(2) by (rule bounded_applyOp)
  have IH: "map entryOf (historyOf (runOps js clock ops ?s') u) =
           newest MAX_DIALOG_HISTORY
             (map entryOf (historyOf ?s' u) @ map (appended js) (filter (\<lambda>op. opUser op = u) ops))"
    using Cons.IH [OF rest b'] .
  have len: "length (historyOf s u) \<le> MAX_DIALOG_HISTORY" using Cons.prems(2) by (simp add: bounded_def)
  show ?case
  proof (cases "opUser op = u")
    case False
    then have "historyOf ?s' u = historyOf s u"
      by (simp add: applyOp_append [OF app] historyOf_pushEntry)
    then show ?thesis using IH False by simp
  next
    case True
    let ?e = "\<lparr>role = fst (appended js op), content = snd (appended js op),
               timestamp = clock (Suc (touchTime s u))\<rparr>"
    have h': "historyOf ?s' u = newest MAX_DIALOG_HISTORY (historyOf s u @ [?e])"
      using True len by (simp add: applyOp_append [OF app] historyOf_pushEntry limitHistory_newest)
    have e: "entryOf ?e = appended js op" by (simp add: entryOf_def)
    let ?A = "map entryOf (historyOf s u) @ [appended js op]"
    let ?B = "map (appended js) (filter (\<lambda>op. opUser op = u) ops)"
    have "map entryOf (historyOf ?s' u) = newest MAX_DIALOG_HISTORY ?A"
      by (simp add: h' map_newest e)
    then have "map entryOf (historyOf (runOps js clock ops ?s') u) =
        newest MAX_DIALOG_HISTORY (newest MAX_DIALOG_HISTORY ?A @ ?B)"
      using IH by (simp only:)
    also have "\<dots> = newest MAX_DIALOG_HISTORY (?A @ ?B)"
      by (rule newest_append) (simp add: MAX_DIALOG_HISTORY_def)
    finally show ?thesis using True by simp
  qed
qed

text \<open>
  C5. From the empty map of the module, after every sequence of operations the history of
  every user has at most \<open>MAX_DIALOG_HISTORY\<close> = 10 entries. After a sequence of append
  operations (messages, images and videos of users, messages of the bot, of any users in
  any order) the history of a user holds the newest 10 of the entries appended for that
  user, in the order of appending; after 15 appends for the user these are all but the
  oldest 5.
\<close>

theorem history_bounded_fifo:
  "(\<forall>userId. length (historyOf (runOps JSON_stringify clock ops initialState) userId)
        \<le> MAX_DIALOG_HISTORY)
   \<and> (list_all isAppend ops \<longrightarrow>
        map entryOf (historyOf (runOps JSON_stringify clock ops initialState) u)
          = newest MAX_DIALOG_HISTORY
              (map (appended JSON_stringify) (filter (\<lambda>op. opUser op = u) ops)))
   \<and> (list_all isAppend ops \<and> length (filter (\<lambda>op. opUser op = u) ops) = 15 \<longrightarrow>
        map entryOf (historyOf (runOps JSON_stringify clock ops initialState) u)
          = drop 5 (map (appended JSON_stringify) (filter (\<lambda>op. opUser op = u) ops)))"
proof -
  have b: "bounded (runOps JSON_stringify clock ops initialState)"
    using bounded_initial by (rule bounded_runOps)
  have f: "map entryOf (historyOf (runOps JSON_stringify clock ops initialState) u)
          = newest MAX_DIALOG_HISTORY
              (map (appended JSON_stringify) (filter (\<lambda>op. opUser op = u) ops))"
    if "list_all isAppend ops"
    using fifo_runOps [OF that bounded_initial, of JSON_stringify clock u]
    by (simp add: historyOf_def initialState_def)
  show ?thesis using b f by (auto simp: bounded_def newest_def MAX_DIALOG_HISTORY_def)
qed

text \<open>The theorem at fifteen messages of one user: the history holds the messages 6 to 15.\<close>

theorem history_bounded_fifo_witness:
  "list_all isAppend fifteenMessages
   \<and> length (filter (\<lambda>op. opUser op = ascii ''u'') fifteenMessages) = 15
   \<and> map entryOf (historyOf (runOps (\<lambda>v. []) tick fifteenMessages initialState) (ascii ''u''))
     = map (\<lambda>c. (User, [c])) [6, 7, 8, 9, 10, 11, 12, 13, 14, 15]"
proof -
  have a: "list_all isAppend fifteenMessages" by (simp add: fifteenMessages_def)
  have f: "filter (\<lambda>op. opUser op = ascii ''u'') fifteenMessages = fifteenMessages"
    by (simp add: fifteenMessages_def)
  have l: "length fifteenMessages = 15" by (simp add: fifteenMessages_def)
  have m: "drop 5 (map (appended (\<lambda>v. [])) fifteenMessages)
             = map (\<lambda>c. (User, [c])) [6, 7, 8, 9, 10, 11, 12, 13, 14, 15]"
    by (simp add: fifteenMessages_def)
  have "map entryOf (historyOf (runOps (\<lambda>v. []) tick fifteenMessages initialState) (ascii ''u''))
          = drop 5 (map (appended (\<lambda>v. []))
              (filter (\<lambda>op. opUser op = ascii ''u'') fifteenMessages))"
  proof -
    have "list_all isAppend fifteenMessages
          \<and> length (filter (\<lambda>op. opUser op = ascii ''u'') fifteenMessages) = 15 \<longrightarrow>
        map entryOf (historyOf (runOps (\<lambda>v. []) tick fifteenMessages initialState) (ascii ''u''))
          = drop 5 (map (appended (\<lambda>v. []))
              (filter (\<lambda>op. opUser op = ascii ''u'') fifteenMessages))"
      using history_bounded_fifo [of "\<lambda>v. []" tick fifteenMessages "ascii ''u''"]
      by blast
    then show ?thesis using a f l by simp
  qed
  then show ?thesis using a f l m by simp
qed

text \<open>
  C6. For every user and every state, after \<open>clearUserContext\<close> the user has no context;
  \<open>getDialogHistory\<close> then returns the empty history, and leaves a context for the user
  with the empty history and the time of the access.
\<close>

theorem clear_then_getDialogHistory:
  "userContexts (clearUserContext userId s) userId = None
   \<and> fst (getDialogHistory clock userId (clearUserContext userId s)) = []
   \<and> userContexts (snd (getDialogHistory clock userId (clearUserContext userId s))) userId
       = Some \<lparr>history = [], lastInteraction = clock (Suc (clockReads s))\<rparr>"
  by (simp add: getDialogHistory_def getUserContext_eq clearUserContext_def historyOf_def
      touchTime_def)

text \<open>
  C8 (as amended). \<open>recordUserImage\<close> and \<open>recordUserVideo\<close> replace the history of the
  user by the old history with one entry pushed and then limited: the entry has the role
  of the user, the content \<open>[\<close> U+5716 U+7247 \<open>: id]\<close> for an image and
  \<open>[\<close> U+5F71 U+7247 \<open>: id]\<close> for a video (the Chinese words for image and video), and a
  time stamp; \<open>lastInteraction\<close> is set to the time of the access. The limit leaves a
  history of fewer than 10 entries with the new entry at its end, and drops the oldest
  entry of a history of 10, which keeps the length at 10.
\<close>

theorem recordUserMedia:
  "recordUserImage clock userId mediaId s =
     \<lparr>userContexts = (userContexts s)(userId \<mapsto>
        \<lparr>history = limitHistory (historyOf s userId @
            [\<lparr>role = User,
              content = [0x005B, 0x5716, 0x7247, 0x003A, 0x0020] @ mediaId @ [0x005D],
              timestamp = clock (Suc (touchTime s userId))\<rparr>]),
         lastInteraction = clock (touchTime s userId)\<rparr>),
      clockReads = Suc (Suc (touchTime s userId))\<rparr>
   \<and> recordUserVideo clock userId mediaId s =
     \<lparr>userContexts = (userContexts s)(userId \<mapsto>
        \<lparr>history = limitHistory (historyOf s userId @
            [\<lparr>role = User,
              content = [0x005B, 0x5F71, 0x7247, 0x003A, 0x0020] @ mediaId @ [0x005D],
              timestamp = clock (Suc (touchTime s userId))\<rparr>]),
         lastInteraction = clock (touchTime s userId)\<rparr>),
      clockReads = Suc (Suc (touchTime s userId))\<rparr>
   \<and> (length (historyOf s userId) < MAX_DIALOG_HISTORY \<longrightarrow>
        limitHistory (historyOf s userId @ [e]) = historyOf s userId @ [e])
   \<and> (length (historyOf s userId) = MAX_DIALOG_HISTORY \<longrightarrow>
        limitHistory (historyOf s userId @ [e]) = tl (historyOf s userId) @ [e]
        \<and> length (limitHistory (historyOf s userId @ [e])) = MAX_DIALOG_HISTORY)"
proof -
  have "tl (historyOf s userId @ [e]) = tl (historyOf s userId) @ [e]"
    if "length (historyOf s userId) = MAX_DIALOG_HISTORY"
    using that by (cases "historyOf s userId") (simp_all add: MAX_DIALOG_HISTORY_def)
  then have "length (historyOf s userId) = 10 \<longrightarrow>
      tl (historyOf s userId @ [e]) = tl (historyOf s userId) @ [e]"
    by (simp add: MAX_DIALOG_HISTORY_def)
  then show ?thesis
    by (simp add: recordUserImage_def recordUserVideo_def pushEntry_eq imagePlaceholder_def
        videoPlaceholder_def limitHistory_def MAX_DIALOG_HISTORY_def)
qed

text \<open>
  The theorem at a user with ten entries, whose oldest entry goes when an image is
  recorded, and at an unknown user, for whom a video makes a context with one entry.
\<close>

theorem recordUserMedia_witness:
  "length (historyOf fullState (ascii ''u'')) = MAX_DIALOG_HISTORY
   \<and> historyOf (recordUserImage tick (ascii ''u'') (ascii ''42'') fullState) (ascii ''u'')
       = map (\<lambda>c. \<lparr>role = User, content = [c], timestamp = [c]\<rparr>) [2, 3, 4, 5, 6, 7, 8, 9, 10]
         @ [\<lparr>role = User,
             content = [0x005B, 0x5716, 0x7247, 0x003A, 0x0020] @ ascii ''42'' @ [0x005D],
             timestamp = tick 21\<rparr>]
   \<and> userContexts (recordUserVideo tick (ascii ''v'') (ascii ''7'') fullState) (ascii ''v'')
       = Some \<lparr>history = [\<lparr>role = User,
                            content = [0x005B, 0x5F71, 0x7247, 0x003A, 0x0020] @ ascii ''7'' @ [0x005D],
                            timestamp = tick 22\<rparr>],
               lastInteraction = tick 21\<rparr>"
proof -
  let ?e = "\<lparr>role = User, content = [0x005B, 0x5716, 0x7247, 0x003A, 0x0020] @ ascii ''42'' @ [0x005D],
            timestamp = tick (Suc (touchTime fullState (ascii ''u'')))\<rparr>"
  let ?f = "\<lparr>role = User, content = [0x005B, 0x5F71, 0x7247, 0x003A, 0x0020] @ ascii ''7'' @ [0x005D],
            timestamp = tick (Suc (touchTime fullState (ascii ''v'')))\<rparr>"
  have h: "historyOf fullState (ascii ''u'')
            = map (\<lambda>c. \<lparr>role = User, content = [c], timestamp = [c]\<rparr>) [1, 2, 3, 4, 5, 6, 7, 8, 9, 10]"
    by (simp add: historyOf_def fullState_def)
  have hv: "historyOf fullState (ascii ''v'') = []"
    by (simp add: historyOf_def fullState_def ascii_def)
  have len: "length (historyOf fullState (ascii ''u'')) = MAX_DIALOG_HISTORY"
    by (simp add: h MAX_DIALOG_HISTORY_def)
  have lenv: "length (historyOf fullState (ascii ''v'')) < MAX_DIALOG_HISTORY"
    by (simp add: hv MAX_DIALOG_HISTORY_def)
  have tu: "Suc (touchTime fullState (ascii ''u'')) = 21"
    by (simp add: touchTime_def fullState_def)
  have tv: "touchTime fullState (ascii ''v'') = 21" "Suc (touchTime fullState (ascii ''v'')) = 22"
    by (simp_all add: touchTime_def fullState_def ascii_def)
  have u: "historyOf (recordUserImage tick (ascii ''u'') (ascii ''42'') fullState) (ascii ''u'')
            = tl (historyOf fullState (ascii ''u'')) @ [?e]"
    using recordUserMedia [of tick "ascii ''u''" "ascii ''42''" fullState ?e] len
    by (simp add: historyOf_def)
  have v: "userContexts (recordUserVideo tick (ascii ''v'') (ascii ''7'') fullState) (ascii ''v'')
            = Some \<lparr>history = historyOf fullState (ascii ''v'') @ [?f],
                    lastInteraction = tick (touchTime fullState (ascii ''v''))\<rparr>"
    using recordUserMedia [of tick "ascii ''v''" "ascii ''7''" fullState ?f] lenv
    by simp
  show ?thesis
    unfolding u v tu tv hv using len by (simp add: h)
qed

text \<open>
  C8 as it was stated fails in the literal: for the id \<open>42\<close> the content recorded is not
  the string \<open>[image: 42]\<close>, nor \<open>[video: 42]\<close> for a video.
\<close>

theorem recordUserMedia_counterexample:
  "map content (historyOf (recordUserImage tick (ascii ''u'') (ascii ''42'') initialState) (ascii ''u''))
     = [[0x005B, 0x5716, 0x7247, 0x003A, 0x0020, 0x0034, 0x0032, 0x005D]]
   \<and> [0x005B, 0x5716, 0x7247, 0x003A, 0x0020, 0x0034, 0x0032, 0x005D] \<noteq> ascii ''[image: 42]''
   \<and> map content (historyOf (recordUserVideo tick (ascii ''u'') (ascii ''42'') initialState) (ascii ''u''))
     = [[0x005B, 0x5F71, 0x7247, 0x003A, 0x0020, 0x0034, 0x0032, 0x005D]]
   \<and> [0x005B, 0x5F71, 0x7247, 0x003A, 0x0020, 0x0034, 0x0032, 0x005D] \<noteq> ascii ''[video: 42]''"
proof -
  have h0: "historyOf initialState (ascii ''u'') = []"
    by (simp add: historyOf_def initialState_def)
  have i: "imagePlaceholder (ascii ''42'') = [0x005B, 0x5716, 0x7247, 0x003A, 0x0020, 0x0034, 0x0032, 0x005D]"
    by (simp add: imagePlaceholder_def ascii_def)
  have v: "videoPlaceholder (ascii ''42'') = [0x005B, 0x5F71, 0x7247, 0x003A, 0x0020, 0x0034, 0x0032, 0x005D]"
    by (simp add: videoPlaceholder_def ascii_def)
  have n: "[0x005B, 0x5716, 0x7247, 0x003A, 0x0020, 0x0034, 0x0032, 0x005D] \<noteq> ascii ''[image: 42]''"
    "[0x005B, 0x5F71, 0x7247, 0x003A, 0x0020, 0x0034, 0x0032, 0x005D] \<noteq> ascii ''[video: 42]''"
    by (simp_all add: ascii_def)
  show ?thesis
    using n
    by (simp add: recordUserImage_def recordUserVideo_def historyOf_pushEntry h0 i v
        limitHistory_def MAX_DIALOG_HISTORY_def)
qed

text \<open>
  C10. For a user with a context, \<open>getDialogHistory\<close> returns the history and leaves it
  as it is, and overwrites \<open>lastInteraction\<close> of the context with the time of the call,
  as every call of \<open>getUserContext\<close> does. For a user without a context it returns the
  empty history and leaves a new context with the empty history in the map.
\<close>

theorem getDialogHistory_effect:
  "(\<forall>context. userContexts s userId = Some context \<longrightarrow>
       getDialogHistory clock userId s =
         (history context,
          s\<lparr>userContexts := (userContexts s)(userId \<mapsto>
               context\<lparr>lastInteraction := clock (clockReads s)\<rparr>),
            clockReads := Suc (clockReads s)\<rparr>)
       \<and> getUserContext clock userId s =
         (context\<lparr>lastInteraction := clock (clockReads s)\<rparr>,
          s\<lparr>userContexts := (userContexts s)(userId \<mapsto>
               context\<lparr>lastInteraction := clock (clockReads s)\<rparr>),
            clockReads := Suc (clockReads s)\<rparr>))
   \<and> (userContexts s userId = None \<longrightarrow>
       getDialogHistory clock userId s =
         ([],
          s\<lparr>userContexts := (userContexts s)(userId \<mapsto>
               \<lparr>history = [], lastInteraction = clock (Suc (clockReads s))\<rparr>),
            clockReads := Suc (Suc (clockReads s))\<rparr>))"
  by (simp add: getDialogHistory_def getUserContext_def now_def Let_def)

text \<open>
  The theorem at a user whose context was last touched at time 10 and is read at time
  20, and at an unknown user, who has a context after the read.
\<close>

theorem getDialogHistory_effect_witness:
  "fst (getDialogHistory tick (ascii ''u'') fullState) = historyOf fullState (ascii ''u'')
   \<and> historyOf (snd (getDialogHistory tick (ascii ''u'') fullState)) (ascii ''u'')
       = historyOf fullState (ascii ''u'')
   \<and> map_option lastInteraction (userContexts fullState (ascii ''u'')) = Some [10]
   \<and> map_option lastInteraction
        (userContexts (snd (getDialogHistory tick (ascii ''u'') fullState)) (ascii ''u''))
       = Some (tick 20)
   \<and> userContexts fullState (ascii ''v'') = None
   \<and> userContexts (snd (getDialogHistory tick (ascii ''v'') fullState)) (ascii ''v'')
       = Some \<lparr>history = [], lastInteraction = tick 21\<rparr>"
proof -
  let ?ctx = "\<lparr>history = map (\<lambda>c. \<lparr>role = User, content = [c], timestamp = [c]\<rparr>)
                     [1, 2, 3, 4, 5, 6, 7, 8, 9, 10],
               lastInteraction = [10]\<rparr>"
  have c: "userContexts fullState (ascii ''u'') = Some ?ctx"
    by (simp add: fullState_def)
  have n: "userContexts fullState (ascii ''v'') = None"
    by (simp add: fullState_def ascii_def)
  have r: "clockReads fullState = 20" by (simp add: fullState_def)
  have u: "getDialogHistory tick (ascii ''u'') fullState =
         (history ?ctx,
          fullState\<lparr>userContexts := (userContexts fullState)(ascii ''u'' \<mapsto>
               ?ctx\<lparr>lastInteraction := tick (clockReads fullState)\<rparr>),
            clockReads := Suc (clockReads fullState)\<rparr>)"
    using getDialogHistory_effect [of fullState "ascii ''u''" tick] c by blast
  have v: "getDialogHistory tick (ascii ''v'') fullState =
         ([],
          fullState\<lparr>userContexts := (userContexts fullState)(ascii ''v'' \<mapsto>
               \<lparr>history = [], lastInteraction = tick (Suc (clockReads fullState))\<rparr>),
            clockReads := Suc (Suc (clockReads fullState))\<rparr>)"
    using getDialogHistory_effect [of fullState "ascii ''v''" tick] n by blast
  show ?thesis
    unfolding u v r using c n by (simp add: historyOf_def)
qed

section \<open>Properties of the response service\<close>

lemma pick_in_range:
  assumes "0 \<le> r" "r < 1" "pool \<noteq> []"
  shows "pick pool r = pool ! nat \<lfloor>r * of_nat (length pool)\<rfloor>"
    and "nat \<lfloor>r * of_nat (length pool)\<rfloor> < length pool"
proof -
  let ?n = "length pool"
  have n: "0 < ?n" using assms(3) by simp
  have lo: "0 \<le> r * of_nat ?n" using assms(1) by simp
  have hi: "r * of_nat ?n < of_nat ?n" using assms(2) n by simp
  have f0: "0 \<le> \<lfloor>r * of_nat ?n\<rfloor>" using lo by simp
  have f1: "\<lfloor>r * of_nat ?n\<rfloor> < int ?n" using hi by (simp add: floor_less_iff)
  show "pick pool r = pool ! nat \<lfloor>r * of_nat ?n\<rfloor>"
    using f0 f1 by (simp add: pick_def Let_def)
  show "nat \<lfloor>r * of_nat ?n\<rfloor> < ?n" using f0 f1 by linarith
qed

lemma knownCombinations_set:
  "set knownCombinations =
     {p @ ascii '' '' @ b @ ascii '' '' @ s | p b s.
        p \<in> set friendlyPrefixes \<and> b \<in> set defaultResponses \<and> s \<in> set encouragingSuffixes}"
  unfolding knownCombinations_def by auto

lemma length_knownCombinations: "length knownCombinations = 64"
  by (simp add: knownCombinations_def friendlyPrefixes_def defaultResponses_def
      encouragingSuffixes_def)

lemma generateDefaultResponse_known:
  assumes "0 \<le> r1" "r1 < 1" "0 \<le> r2" "r2 < 1" "0 \<le> r3" "r3 < 1"
  shows "generateDefaultResponse r1 r2 r3 =
           friendlyPrefixes ! nat \<lfloor>r1 * 4\<rfloor> @ ascii '' '' @ defaultResponses ! nat \<lfloor>r2 * 4\<rfloor>
             @ ascii '' '' @ encouragingSuffixes ! nat \<lfloor>r3 * 4\<rfloor>"
    and "generateDefaultResponse r1 r2 r3 \<in> set knownCombinations"
proof -
  have l: "length friendlyPrefixes = 4" "length defaultResponses = 4" "length encouragingSuffixes = 4"
    by (simp_all add: friendlyPrefixes_def defaultResponses_def encouragingSuffixes_def)
  have ne: "friendlyPrefixes \<noteq> []" "defaultResponses \<noteq> []" "encouragingSuffixes \<noteq> []"
    using l by auto
  have p: "pick friendlyPrefixes r1 = friendlyPrefixes ! nat \<lfloor>r1 * 4\<rfloor>"
    "nat \<lfloor>r1 * 4\<rfloor> < 4"
    using pick_in_range [OF assms(1,2) ne(1)] l by simp_all
  have b: "pick defaultResponses r2 = defaultResponses ! nat \<lfloor>r2 * 4\<rfloor>"
    "nat \<lfloor>r2 * 4\<rfloor> < 4"
    using pick_in_range [OF assms(3,4) ne(2)] l by simp_all
  have s: "pick encouragingSuffixes r3 = encouragingSuffixes ! nat \<lfloor>r3 * 4\<rfloor>"
    "nat \<lfloor>r3 * 4\<rfloor> < 4"
    using pick_in_range [OF assms(5,6) ne(3)] l by simp_all
  show e: "generateDefaultResponse r1 r2 r3 =
           friendlyPrefixes ! nat \<lfloor>r1 * 4\<rfloor> @ ascii '' '' @ defaultResponses ! nat \<lfloor>r2 * 4\<rfloor>
             @ ascii '' '' @ encouragingSuffixes ! nat \<lfloor>r3 * 4\<rfloor>"
    by (simp add: generateDefaultResponse_def p b s)
  have "friendlyPrefixes ! nat \<lfloor>r1 * 4\<rfloor> \<in> set friendlyPrefixes"
    "defaultResponses ! nat \<lfloor>r2 * 4\<rfloor> \<in> set defaultResponses"
    "encouragingSuffixes ! nat \<lfloor>r3 * 4\<rfloor> \<in> set encouragingSuffixes"
    using p(2) b(2) s(2) l by (simp_all only: nth_mem)
  then show "generateDefaultResponse r1 r2 r3 \<in> set knownCombinations"
    unfolding e knownCombinations_set by blast
qed

lemma generateDefaultResponse_every:
  assumes "i < 4" "j < 4" "k < 4"
  shows "generateDefaultResponse (of_nat i / 4) (of_nat j / 4) (of_nat k / 4) =
           friendlyPrefixes ! i @ ascii '' '' @ defaultResponses ! j
             @ ascii '' '' @ encouragingSuffixes ! k"
proof -
  have r: "0 \<le> (of_nat n / 4 :: rat)" "n < 4 \<Longrightarrow> (of_nat n / 4 :: rat) < 1"
    "nat \<lfloor>(of_nat n / 4 :: rat) * 4\<rfloor> = n" for n
    by simp_all
  show ?thesis
    using generateDefaultResponse_known(1) [OF r(1) r(2) r(1) r(2) r(1) r(2), of i j k] assms
    by (simp add: r(3))
qed

text \<open>
  C9. \<open>generateGeneralResponse\<close> tests the query as it is, without change of case, for
  the literal phrases in order: a greeting phrase gives the greeting reply; otherwise a
  gratitude phrase gives the gratitude reply; otherwise a help phrase gives the help
  reply. For a query with none of the phrases the result is a prefix, a body and a
  suffix, joined by single spaces, each picked from its own pool of 4 by its own draw
  of \<open>Math.random\<close> (a value from 0 up to, not including, 1), so it is one of the
  4 * 4 * 4 known combinations; and every choice of a prefix, a body and a suffix is the
  result for some draws.
\<close>

theorem generateGeneralResponse_rules:
  "((includes_str query greeting1 \<or> includes_str query greeting2 \<or> includes_str query greeting3)
      \<longrightarrow> generateGeneralResponse query r1 r2 r3 = greetingReply)
   \<and> (\<not> (includes_str query greeting1 \<or> includes_str query greeting2 \<or> includes_str query greeting3)
      \<and> (includes_str query thanks1 \<or> includes_str query thanks2)
      \<longrightarrow> generateGeneralResponse query r1 r2 r3 = thanksReply)
   \<and> (\<not> (includes_str query greeting1 \<or> includes_str query greeting2 \<or> includes_str query greeting3)
      \<and> \<not> (includes_str query thanks1 \<or> includes_str query thanks2)
      \<and> (includes_str query help1 \<or> includes_str query help2 \<or> includes_str query help3)
      \<longrightarrow> generateGeneralResponse query r1 r2 r3 = helpReply)
   \<and> (\<not> (includes_str query greeting1 \<or> includes_str query greeting2 \<or> includes_str query greeting3)
      \<and> \<not> (includes_str query thanks1 \<or> includes_str query thanks2)
      \<and> \<not> (includes_str query help1 \<or> includes_str query help2 \<or> includes_str query help3)
      \<and> 0 \<le> r1 \<and> r1 < 1 \<and> 0 \<le> r2 \<and> r2 < 1 \<and> 0 \<le> r3 \<and> r3 < 1
      \<longrightarrow> generateGeneralResponse query r1 r2 r3
            = friendlyPrefixes ! nat \<lfloor>r1 * 4\<rfloor> @ ascii '' ''
                @ defaultResponses ! nat \<lfloor>r2 * 4\<rfloor> @ ascii '' ''
                @ encouragingSuffixes ! nat \<lfloor>r3 * 4\<rfloor>
          \<and> generateGeneralResponse query r1 r2 r3 \<in> set knownCombinations)
   \<and> length friendlyPrefixes = 4 \<and> length defaultResponses = 4 \<and> length encouragingSuffixes = 4
   \<and> length knownCombinations = 4 * 4 * 4
   \<and> (\<forall>i < 4. \<forall>j < 4. \<forall>k < 4.
        generateDefaultResponse (of_nat i / 4) (of_nat j / 4) (of_nat k / 4)
          = friendlyPrefixes ! i @ ascii '' '' @ defaultResponses ! j @ ascii '' ''
              @ encouragingSuffixes ! k)"
proof -
  have l: "length friendlyPrefixes = 4" "length defaultResponses = 4" "length encouragingSuffixes = 4"
    by (simp_all add: friendlyPrefixes_def defaultResponses_def encouragingSuffixes_def)
  have d: "generateGeneralResponse query r1 r2 r3 = generateDefaultResponse r1 r2 r3"
    if "\<not> (includes_str query greeting1 \<or> includes_str query greeting2 \<or> includes_str query greeting3)"
      "\<not> (includes_str query thanks1 \<or> includes_str query thanks2)"
      "\<not> (includes_str query help1 \<or> includes_str query help2 \<or> includes_str query help3)"
    using that by (simp add: generateGeneralResponse_def handleSpecialKeywords_def)
  have s: "(includes_str query greeting1 \<or> includes_str query greeting2 \<or> includes_str query greeting3)
      \<longrightarrow> generateGeneralResponse query r1 r2 r3 = greetingReply"
    "\<not> (includes_str query greeting1 \<or> includes_str query greeting2 \<or> includes_str query greeting3)
      \<and> (includes_str query thanks1 \<or> includes_str query thanks2)
      \<longrightarrow> generateGeneralResponse query r1 r2 r3 = thanksReply"
    "\<not> (includes_str query greeting1 \<or> includes_str query greeting2 \<or> includes_str query greeting3)
      \<and> \<not> (includes_str query thanks1 \<or> includes_str query thanks2)
      \<and> (includes_str query help1 \<or> includes_str query help2 \<or> includes_str query help3)
      \<longrightarrow> generateGeneralResponse query r1 r2 r3 = helpReply"
    by (simp_all add: generateGeneralResponse_def handleSpecialKeywords_def)
  show ?thesis
    using s d generateDefaultResponse_known [of r1 r2 r3] generateDefaultResponse_every l
      length_knownCombinations
    by (intro conjI impI allI) simp_all
qed

text \<open>The definitions that evaluate the phrase tests.\<close>

lemmas eval_phrase_defs =
  greeting1_def greeting2_def greeting3_def thanks1_def thanks2_def help1_def help2_def help3_def

text \<open>
  The theorem at four queries: one with a gratitude and a greeting phrase, which gets the
  greeting reply; one with a gratitude phrase; one with \<open>help\<close>; and \<open>"Help me"\<close>, which
  has none of the phrases as they are written and gets the template for the draws
  0, 1/2 and 3/4.
\<close>

theorem generateGeneralResponse_rules_witness:
  "generateGeneralResponse [0x8B1D, 0x8B1D, 0x4F60, 0x597D] 0 (1 / 2) (3 / 4) = greetingReply
   \<and> generateGeneralResponse (ascii ''thanks, '' @ [0x611F, 0x8B1D]) 0 (1 / 2) (3 / 4) = thanksReply
   \<and> generateGeneralResponse (ascii ''please help me'') 0 (1 / 2) (3 / 4) = helpReply
   \<and> generateGeneralResponse (ascii ''Help me'') 0 (1 / 2) (3 / 4)
       = friendlyPrefixes_0 @ ascii '' '' @ defaultResponses_2 @ ascii '' '' @ encouragingSuffixes_3"
proof -
  let ?g = "[0x8B1D, 0x8B1D, 0x4F60, 0x597D] :: jsstring"
  let ?t = "ascii ''thanks, '' @ [0x611F, 0x8B1D]"
  let ?h = "ascii ''please help me''"
  let ?n = "ascii ''Help me''"
  have g: "includes_str ?g greeting1"
    by (simp add: eval_phrase_defs startsWith_def)
  have t: "\<not> (includes_str ?t greeting1 \<or> includes_str ?t greeting2 \<or> includes_str ?t greeting3)"
    "includes_str ?t thanks2"
    by (simp_all add: eval_phrase_defs startsWith_def ascii_def)
  have h: "\<not> (includes_str ?h greeting1 \<or> includes_str ?h greeting2 \<or> includes_str ?h greeting3)"
    "\<not> (includes_str ?h thanks1 \<or> includes_str ?h thanks2)"
    "includes_str ?h help2"
    by (simp_all add: eval_phrase_defs startsWith_def ascii_def)
  have n: "\<not> (includes_str ?n greeting1 \<or> includes_str ?n greeting2 \<or> includes_str ?n greeting3)"
    "\<not> (includes_str ?n thanks1 \<or> includes_str ?n thanks2)"
    "\<not> (includes_str ?n help1 \<or> includes_str ?n help2 \<or> includes_str ?n help3)"
    by (simp_all add: eval_phrase_defs startsWith_def ascii_def)
  have r: "nat \<lfloor>(0::rat) * 4\<rfloor> = 0" "nat \<lfloor>(1 / 2 :: rat) * 4\<rfloor> = 2" "nat \<lfloor>(3 / 4 :: rat) * 4\<rfloor> = 3"
    by simp_all
  have p: "friendlyPrefixes ! 0 = friendlyPrefixes_0" "defaultResponses ! 2 = defaultResponses_2"
    "encouragingSuffixes ! 3 = encouragingSuffixes_3"
    by (simp_all add: friendlyPrefixes_def defaultResponses_def encouragingSuffixes_def)
  have G: "generateGeneralResponse ?g 0 (1 / 2) (3 / 4) = greetingReply"
    using generateGeneralResponse_rules [of ?g 0 "1 / 2" "3 / 4"] g by blast
  have T: "generateGeneralResponse ?t 0 (1 / 2) (3 / 4) = thanksReply"
    using generateGeneralResponse_rules [of ?t 0 "1 / 2" "3 / 4"] t by blast
  have H: "generateGeneralResponse ?h 0 (1 / 2) (3 / 4) = helpReply"
    using generateGeneralResponse_rules [of ?h 0 "1 / 2" "3 / 4"] h by blast
  have "generateGeneralResponse ?n 0 (1 / 2) (3 / 4)
            = friendlyPrefixes ! nat \<lfloor>(0::rat) * 4\<rfloor> @ ascii '' ''
                @ defaultResponses ! nat \<lfloor>(1 / 2 :: rat) * 4\<rfloor> @ ascii '' ''
                @ encouragingSuffixes ! nat \<lfloor>(3 / 4 :: rat) * 4\<rfloor>"
    using generateGeneralResponse_rules [of ?n 0 "1 / 2" "3 / 4"] n by simp
  then have N: "generateGeneralResponse ?n 0 (1 / 2) (3 / 4)
       = friendlyPrefixes_0 @ ascii '' '' @ defaultResponses_2 @ ascii '' '' @ encouragingSuffixes_3"
    unfolding r p .
  show ?thesis using G T H N by blast
qed

section \<open>Properties of the extraction of titles and descriptions\<close>

lemma lineTerminator_whitespace: "isLineTerminator c \<Longrightarrow> isWhiteSpace c"
  by (auto simp: isLineTerminator_def isWhiteSpace_def)

lemma lineTerminator_not_hash: "isLineTerminator c \<Longrightarrow> c \<noteq> 0x23"
  by (auto simp: isLineTerminator_def)

lemma consFirst_splitLines: "splitLines s \<noteq> []"
  by (induction s) (auto simp: consFirst_def split: list.splits)

lemma splitLines_unfold:
  "splitLines s = takeWhile isDot s #
     (case dropWhile isDot s of [] \<Rightarrow> [] | c # rest \<Rightarrow> splitLines rest)"
proof (induction s)
  case Nil
  show ?case by simp
next
  case (Cons c s)
  show ?case
  proof (cases "isLineTerminator c")
    case True
    then have "\<not> isDot c" by (simp add: isDot_def)
    then show ?thesis using True by simp
  next
    case False
    then have "isDot c" by (simp add: isDot_def)
    then show ?thesis
      using False by (subst splitLines.simps) (simp add: Cons.IH consFirst_def)
  qed
qed

lemma searchHeading_False:
  "searchHeading False s =
     (case dropWhile isDot s of [] \<Rightarrow> None | c # rest \<Rightarrow> searchHeading True rest)"
proof (induction s)
  case Nil
  show ?case by simp
next
  case (Cons c s)
  show ?case
  proof (cases "isLineTerminator c")
    case True
    then have "\<not> isDot c" by (simp add: isDot_def)
    then show ?thesis using True by simp
  next
    case False
    then have "isDot c" by (simp add: isDot_def)
    then show ?thesis using False Cons.IH by simp
  qed
qed

lemma searchHeading_True:
  "searchHeading True s =
     (case matchHeading s of
        Some cap \<Rightarrow> Some cap
      | None \<Rightarrow> (case dropWhile isDot s of [] \<Rightarrow> None | c # rest \<Rightarrow> searchHeading True rest))"
proof (cases s)
  case Nil
  then show ?thesis by (simp add: matchHeading_def)
next
  case (Cons c s')
  show ?thesis
  proof (cases "matchHeading (c # s')")
    case None
    show ?thesis
    proof (cases "isLineTerminator c")
      case True
      then have "\<not> isDot c" by (simp add: isDot_def)
      then show ?thesis unfolding Cons using None True by simp
    next
      case False
      then have "isDot c" by (simp add: isDot_def)
      then show ?thesis unfolding Cons using None False by (simp add: searchHeading_False)
    qed
  next
    case (Some cap)
    then show ?thesis unfolding Cons by simp
  qed
qed

lemma matchDots_line:
  assumes "d \<noteq> []" "atLineEnd t"
  shows "matchDots (length d) (d @ t) = Some d"
proof -
  obtain k where k: "length d = Suc k" using assms(1) by (cases d) auto
  show ?thesis unfolding k using assms(2) k by simp
qed

lemma takeWhile_append_stop:
  assumes "\<forall>x \<in> set d. P x" "case t of [] \<Rightarrow> True | c # _ \<Rightarrow> \<not> P c"
  shows "takeWhile P (d @ t) = d"
  using assms by (cases t) (simp_all add: takeWhile_append2)

lemma matchSpaces_line:
  assumes ws: "\<forall>x \<in> set w. isWhiteSpace x" and w: "w \<noteq> []"
    and d: "d \<noteq> []" "\<not> isWhiteSpace (hd d)" "\<forall>x \<in> set d. isDot x"
    and t: "atLineEnd t"
  shows "matchSpaces (length w) (w @ d @ t) = Some d"
proof -
  obtain j where j: "length w = Suc j" using w by (cases w) auto
  have dr: "drop (Suc j) (w @ d @ t) = d @ t" using j by (metis append_eq_conv_conj)
  have "case t of [] \<Rightarrow> True | c # _ \<Rightarrow> \<not> isDot c"
    using t by (cases t) (simp_all add: atLineEnd_def isDot_def)
  then have tw: "takeWhile isDot (d @ t) = d" using d(3) by (rule takeWhile_append_stop [rotated])
  have "matchSpaces (Suc j) (w @ d @ t) =
      (case matchDots (length (takeWhile isDot (drop (Suc j) (w @ d @ t)))) (drop (Suc j) (w @ d @ t)) of
        Some cap \<Rightarrow> Some cap
      | None \<Rightarrow> matchSpaces j (w @ d @ t))"
    by (rule matchSpaces.simps)
  also have "\<dots> = Some d"
    unfolding dr tw matchDots_line [OF d(1) t] by simp
  finally show ?thesis unfolding j .
qed

lemma line_split:
  "\<exists>t. s = takeWhile isDot s @ t \<and> atLineEnd t"
proof -
  have "s = takeWhile isDot s @ dropWhile isDot s" by simp
  moreover have "atLineEnd (dropWhile isDot s)"
  proof (cases "dropWhile isDot s")
    case Nil
    show ?thesis unfolding atLineEnd_def Nil by simp
  next
    case (Cons c rest)
    then have "dropWhile isDot s \<noteq> []" by simp
    then have "\<not> isDot (hd (dropWhile isDot s))" by (rule hd_dropWhile)
    then show ?thesis unfolding atLineEnd_def Cons by (simp add: isDot_def)
  qed
  ultimately show ?thesis by blast
qed

lemma trim_dropWhile: "trim (dropWhile isWhiteSpace s) = trim s"
  by (simp add: trim_def)

lemma matchHeading_line:
  assumes "\<not> bareMarker (takeWhile isDot s)"
  shows "matchHeading s =
     (if isHeadingLine (takeWhile isDot s)
      then Some (dropWhile isWhiteSpace (tl (takeWhile isDot s))) else None)"
proof -
  obtain t where s: "s = takeWhile isDot s @ t" and t: "atLineEnd t"
    using line_split by blast
  let ?l = "takeWhile isDot s"
  show ?thesis
  proof (cases ?l)
    case Nil
    then have "s = t" using s by simp
    then have "matchHeading s = None"
      using t by (cases t) (auto simp: matchHeading_def atLineEnd_def dest: lineTerminator_not_hash)
    then show ?thesis using Nil by (simp add: isHeadingLine_def)
  next
    case (Cons c r)
    have dots: "\<forall>x \<in> set r. isDot x"
      using Cons by (metis list.set_intros(2) set_takeWhileD)
    have s': "s = c # r @ t" using s Cons by simp
    show ?thesis
    proof (cases "c = 0x23")
      case False
      then have "matchHeading s = None" by (subst s') (simp add: matchHeading_def)
      then show ?thesis using False Cons by (simp add: isHeadingLine_def split: list.splits)
    next
      case True
      then have nb: "\<not> list_all isWhiteSpace r" using assms Cons by (simp add: bareMarker_def)
      let ?w = "takeWhile isWhiteSpace r"
      let ?d = "dropWhile isWhiteSpace r"
      have d: "?d \<noteq> []" using nb by (simp add: list_all_iff)
      have hd: "\<not> isWhiteSpace (hd ?d)" using d by (simp add: hd_dropWhile)
      have dd: "\<forall>x \<in> set ?d. isDot x" using dots by (meson set_dropWhileD)
      have ww: "\<forall>x \<in> set ?w. isWhiteSpace x" by (meson set_takeWhileD)
      have r: "r = ?w @ ?d" by simp
      have tw: "takeWhile isWhiteSpace (r @ t) = ?w"
        using nb by (simp add: takeWhile_append1 list_all_iff) (metis takeWhile_append1)
      have rt: "r @ t = ?w @ ?d @ t" by simp
      have m: "matchHeading s = matchSpaces (length ?w) (?w @ ?d @ t)"
      proof -
        have "matchHeading s = matchHeading (c # r @ t)" using s' by simp
        also have "\<dots> = matchSpaces (length (takeWhile isWhiteSpace (r @ t))) (r @ t)"
          using True by (simp add: matchHeading_def)
        also have "\<dots> = matchSpaces (length ?w) (r @ t)" by (simp only: tw)
        also have "\<dots> = matchSpaces (length ?w) (?w @ ?d @ t)"
          using rt by (rule arg_cong)
        finally show ?thesis .
      qed
      show ?thesis
      proof (cases ?w)
        case Nil
        then have "matchHeading s = None" using m by simp
        moreover have "\<not> isHeadingLine (c # r)"
        proof -
          have "r = ?d" using Nil r by simp
          then obtain x r' where "r = x # r'" "\<not> isWhiteSpace x"
            using d hd by (cases r) auto
          then show ?thesis by (simp add: isHeadingLine_def)
        qed
        ultimately show ?thesis using Cons by simp
      next
        case (Cons a w')
        then have wne: "?w \<noteq> []" by simp
        have "matchHeading s = Some ?d"
          using m matchSpaces_line [OF ww wne d hd dd t] by simp
        moreover have "isHeadingLine (c # r)"
        proof -
          have "r = (a # w') @ ?d" using Cons r by simp
          moreover have "isWhiteSpace a" using ww Cons by simp
          ultimately show ?thesis using True d
            by (cases ?d) (auto simp: isHeadingLine_def)
        qed
        ultimately show ?thesis using \<open>takeWhile isDot s = c # r\<close> by simp
      qed
    qed
  qed
qed

lemma searchHeading_lines:
  "\<forall>l \<in> set (upToHeading (splitLines s)). \<not> bareMarker l \<Longrightarrow>
   searchHeading True s =
     map_option (\<lambda>l. dropWhile isWhiteSpace (tl l)) (find isHeadingLine (splitLines s))"
proof (induction s rule: length_induct)
  case (1 s)
  let ?l = "takeWhile isDot s"
  have sh: "searchHeading True s =
     (case matchHeading s of
        Some cap \<Rightarrow> Some cap
      | None \<Rightarrow> (case dropWhile isDot s of [] \<Rightarrow> None | c # rest \<Rightarrow> searchHeading True rest))"
    by (rule searchHeading_True)
  have sl: "splitLines s = ?l #
     (case dropWhile isDot s of [] \<Rightarrow> [] | c # rest \<Rightarrow> splitLines rest)"
    by (rule splitLines_unfold)
  have nb: "\<not> bareMarker ?l"
    using "1.prems" unfolding sl by (simp split: if_splits)
  note mh = matchHeading_line [OF nb]
  show ?case
  proof (cases "isHeadingLine ?l")
    case True
    then show ?thesis unfolding sh sl mh by simp
  next
    case False
    show ?thesis
    proof (cases "dropWhile isDot s")
      case Nil
      show ?thesis unfolding sh sl mh Nil using False by simp
    next
      case (Cons c rest)
      have "length (dropWhile isDot s) \<le> length s" by (rule length_dropWhile_le)
      then have len: "length rest < length s" using Cons by simp
      have "\<forall>l \<in> set (upToHeading (splitLines rest)). \<not> bareMarker l"
        using "1.prems" False unfolding sl Cons by simp
      then have "searchHeading True rest =
          map_option (\<lambda>l. dropWhile isWhiteSpace (tl l)) (find isHeadingLine (splitLines rest))"
        using "1.IH" len by blast
      then show ?thesis unfolding sh sl mh Cons using False by simp
    qed
  qed
qed

lemma extractTitle_heading:
  assumes "\<forall>l \<in> set (upToHeading (splitLines text)). \<not> bareMarker l"
  shows "extractTitle text = headingTitle text"
  unfolding extractTitle_def headingTitle_def searchHeading_lines [OF assms]
  by (cases "find isHeadingLine (splitLines text)") (simp_all add: trim_dropWhile)

lemma firstDescription_find:
  "firstDescription ps =
     (case find (\<lambda>p. \<not> startsWith p [0x23] \<and> trim p \<noteq> []) ps of
        None \<Rightarrow> [] | Some p \<Rightarrow> trim p)"
  by (induction ps) simp_all

lemma find_Some_holds: "find P xs = Some x \<Longrightarrow> P x"
  by (induction xs) (auto split: if_splits)

lemma ellipsize_empty: "ellipsize d = [] \<longleftrightarrow> d = []"
  by (auto simp: ellipsize_def)

lemma extractDescription_paragraph: "extractDescription text = paragraphDescription text"
proof (cases "find (\<lambda>p. \<not> startsWith p [0x23] \<and> trim p \<noteq> []) (splitParagraphs text)")
  case None
  then show ?thesis
    by (simp add: extractDescription_def paragraphDescription_def firstDescription_find)
next
  case (Some p)
  then have "trim p \<noteq> []" using find_Some_holds by fastforce
  then have "ellipsize (trim p) \<noteq> []" by (simp add: ellipsize_empty)
  then show ?thesis
    using Some \<open>trim p \<noteq> []\<close>
    by (simp add: extractDescription_def paragraphDescription_def firstDescription_find
        ellipsize_def Let_def)
qed

lemma splitParagraphs_nonempty: "splitParagraphs s \<noteq> []"
  by (induction s rule: splitParagraphs.induct) (auto simp: consFirst_def split: list.splits)

lemma joinParagraphs_consFirst:
  "ps \<noteq> [] \<Longrightarrow> joinParagraphs (consFirst c ps) = c # joinParagraphs ps"
proof (cases ps)
  case Nil
  assume "ps \<noteq> []"
  with Nil show ?thesis by simp
next
  case (Cons p rest)
  then show ?thesis by (cases rest) (simp_all add: consFirst_def)
qed

lemma joinParagraphs_Nil_Cons:
  "ps \<noteq> [] \<Longrightarrow> joinParagraphs ([] # ps) = [0x0A, 0x0A] @ joinParagraphs ps"
  by (cases ps) simp_all

lemma join_split: "joinParagraphs (splitParagraphs s) = s"
proof (induction s rule: splitParagraphs.induct)
  case 1
  show ?case by simp
next
  case (2 c)
  show ?case by simp
next
  case (3 c d s)
  show ?case
  proof (cases "c = 0x0A \<and> d = 0x0A")
    case True
    then show ?thesis
      using "3.IH"(1) by (simp add: joinParagraphs_Nil_Cons splitParagraphs_nonempty)
  next
    case False
    then have eq: "splitParagraphs (c # d # s) = consFirst c (splitParagraphs (d # s))" by auto
    have ih: "joinParagraphs (splitParagraphs (d # s)) = d # s" using "3.IH"(2) False by simp
    show ?thesis
      by (simp only: eq joinParagraphs_consFirst [OF splitParagraphs_nonempty] ih)
  qed
qed

lemma first_paragraph_head:
  "splitParagraphs (d # s) = p # ps \<Longrightarrow> p = [] \<or> hd p = d"
  by (cases s) (auto simp: consFirst_def split: list.splits if_splits)

lemma no_blank_line_inside:
  "\<forall>p \<in> set (splitParagraphs s). \<not> includes_str p [0x0A, 0x0A]"
proof (induction s rule: splitParagraphs.induct)
  case 1
  show ?case by simp
next
  case (2 c)
  show ?case by (simp add: startsWith_def)
next
  case (3 c d s)
  show ?case
  proof (cases "c = 0x0A \<and> d = 0x0A")
    case True
    then show ?thesis using "3.IH"(1) by simp
  next
    case False
    obtain p ps where sp: "splitParagraphs (d # s) = p # ps"
      using splitParagraphs_nonempty [of "d # s"] by (cases "splitParagraphs (d # s)") auto
    have eq: "splitParagraphs (c # d # s) = (c # p) # ps"
      using False sp by (auto simp: consFirst_def)
    have ih: "\<forall>q \<in> set (p # ps). \<not> includes_str q [0x0A, 0x0A]"
      using "3.IH"(2) False sp by auto
    have "p = [] \<or> hd p = d" using sp by (rule first_paragraph_head)
    then have "\<not> startsWith (c # p) [0x0A, 0x0A]"
      using False by (cases p) (auto simp: startsWith_def)
    then have "\<not> includes_str (c # p) [0x0A, 0x0A]" using ih by simp
    then show ?thesis unfolding eq using ih by simp
  qed
qed

text \<open>
  C7 (as amended). For every text in which no line up to the first heading line, that
  line included, is a bare marker, the title of the listing entry is the content of the
  first heading line (a line of \<open>#\<close>, whitespace and more), trimmed, and the fallback
  literal when there is no heading line. For every
  text, the description is the first paragraph that does not start with \<open>#\<close> and is
  not whitespace only, trimmed, and cut to its first 50 code units and an ellipsis when
  the trimmed paragraph is longer than 50; it is the fallback literal when there is no
  such paragraph. The paragraphs are the pieces between blank lines: joined by two
  line feeds they give the text, and none of them contains two adjacent line feeds.
\<close>

theorem extract_title_description:
  "((\<forall>l \<in> set (upToHeading (splitLines text)). \<not> bareMarker l)
      \<longrightarrow> extractTitle text = headingTitle text)
   \<and> extractDescription text = paragraphDescription text
   \<and> joinParagraphs (splitParagraphs text) = text
   \<and> (\<forall>p \<in> set (splitParagraphs text). \<not> includes_str p [0x0A, 0x0A])"
  using extractTitle_heading extractDescription_paragraph join_split no_blank_line_inside
  by blast

text \<open>The definitions that evaluate titles and descriptions of concrete texts.\<close>

lemmas eval_text_defs =
  sampleText_def longParagraphText_def bareMarkerText_def trailingLineFeedText_def ascii_def
  headingTitle_def isHeadingLine_def bareMarker_def paragraphDescription_def claimedDescription_def
  ellipsize_def consFirst_def trim_def isWhiteSpace_def isLineTerminator_def startsWith_def
  untitledEntry_def noDescription_def

text \<open>
  The theorem at a text with the heading in the second line, whose first paragraph is
  the description, and at a text with a paragraph of spaces before a long paragraph.
\<close>

theorem extract_title_description_witness:
  "splitLines sampleText = [ascii ''Notes'', ascii ''#  CVVH Setup '', [], ascii ''Steps.'']
   \<and> extractTitle sampleText = ascii ''CVVH Setup''
   \<and> extractDescription sampleText = ascii ''Notes'' @ [0x0A] @ ascii ''#  CVVH Setup''
   \<and> extractDescription longParagraphText
       = ascii ''aaaaaaaaaabbbbbbbbbbccccccccccddddddddddeeeeeeeeee...''"
proof -
  have nb: "\<forall>l \<in> set (upToHeading (splitLines sampleText)). \<not> bareMarker l"
    by (simp add: eval_text_defs)
  have t: "headingTitle sampleText = ascii ''CVVH Setup''"
    by (simp add: eval_text_defs)
  have d: "paragraphDescription sampleText = ascii ''Notes'' @ [0x0A] @ ascii ''#  CVVH Setup''"
    by (simp add: eval_text_defs)
  have e: "paragraphDescription longParagraphText
       = ascii ''aaaaaaaaaabbbbbbbbbbccccccccccddddddddddeeeeeeeeee...''"
    by (simp add: eval_text_defs)
  have l: "splitLines sampleText = [ascii ''Notes'', ascii ''#  CVVH Setup '', [], ascii ''Steps.'']"
    by (simp add: eval_text_defs)
  show ?thesis
    using extract_title_description [of sampleText]
      extract_title_description [of longParagraphText] nb t d e l
    by simp
qed

text \<open>
  C7 as it was stated fails in both parts. In the text of the lines \<open>#\<close> and \<open>foo\<close> no
  line is a heading line, and the title is \<open>foo\<close>: the whitespace of the pattern runs
  over the line feed. In the text \<open># T\<close>, blank line, \<open>Body\<close>, line feed, the first
  paragraph that does not start with \<open>#\<close> ends with the line feed, and the description
  does not.
\<close>

theorem extract_title_description_counterexample:
  "splitLines bareMarkerText = [ascii ''#'', ascii ''foo'']
   \<and> extractTitle bareMarkerText = ascii ''foo''
   \<and> headingTitle bareMarkerText = untitledEntry
   \<and> extractTitle bareMarkerText \<noteq> headingTitle bareMarkerText
   \<and> splitParagraphs trailingLineFeedText = [ascii ''# T'', ascii ''Body'' @ [0x0A]]
   \<and> extractDescription trailingLineFeedText = ascii ''Body''
   \<and> claimedDescription trailingLineFeedText = ascii ''Body'' @ [0x0A]
   \<and> extractDescription trailingLineFeedText \<noteq> claimedDescription trailingLineFeedText"
  by (simp add: eval_text_defs extractTitle_def matchHeading_def atLineEnd_def isDot_def
      extractDescription_def)

end
